theory Spec2Isabelle
  imports Main "HOL-Library.AList" "HOL-Library.Sublist"
begin

section \<open>Python strings\<close>

text \<open>
  A Python \<open>str\<close> is modelled as a \<open>string\<close>, one \<open>char\<close> per code point, for text whose
  code points are below 256 (Latin-1). The character classes below are the ones of
  CPython on that range: \<open>str.isspace\<close> (used by \<open>str.strip()\<close> and by \<open>\s\<close>), decimal digits
  (\<open>\d\<close>), word characters (\<open>\w\<close>: \<open>str.isalnum\<close> or the underscore) and the case mappings.
\<close>

definition is_space :: "char \<Rightarrow> bool" where
  "is_space c = (let n = (of_char c :: nat) in
     (9 \<le> n \<and> n \<le> 13) \<or> (28 \<le> n \<and> n \<le> 32) \<or> n = 133 \<or> n = 160)"

definition is_digit :: "char \<Rightarrow> bool" where
  "is_digit c = (let n = (of_char c :: nat) in 48 \<le> n \<and> n \<le> 57)"

definition is_word :: "char \<Rightarrow> bool" where
  "is_word c = (let n = (of_char c :: nat) in
     (48 \<le> n \<and> n \<le> 57) \<or> (65 \<le> n \<and> n \<le> 90) \<or> n = 95 \<or> (97 \<le> n \<and> n \<le> 122) \<or>
     n = 170 \<or> n = 178 \<or> n = 179 \<or> n = 181 \<or> n = 185 \<or> n = 186 \<or>
     (188 \<le> n \<and> n \<le> 190) \<or> (192 \<le> n \<and> n \<le> 214) \<or> (216 \<le> n \<and> n \<le> 246) \<or>
     (248 \<le> n \<and> n \<le> 255))"

definition lower_char :: "char \<Rightarrow> char" where
  "lower_char c = (let n = (of_char c :: nat) in
     if (65 \<le> n \<and> n \<le> 90) \<or> (192 \<le> n \<and> n \<le> 214) \<or> (216 \<le> n \<and> n \<le> 222)
     then char_of (n + 32) else c)"

definition lower :: "string \<Rightarrow> string" where
  "lower s = map lower_char s"

text \<open>
  \<open>str.upper()\<close>: the sharp s (223) becomes \<open>SS\<close>. The upper-case forms of the micro sign (181)
  and of y with diaeresis (255) lie above 255; the model leaves these two characters as
  they are.
\<close>

definition upper_char :: "char \<Rightarrow> string" where
  "upper_char c = (let n = (of_char c :: nat) in
     if (97 \<le> n \<and> n \<le> 122) \<or> (224 \<le> n \<and> n \<le> 246) \<or> (248 \<le> n \<and> n \<le> 254)
     then [char_of (n - 32)]
     else if n = 223 then ''SS'' else [c])"

definition upper :: "string \<Rightarrow> string" where
  "upper s = concat (map upper_char s)"

definition strip :: "string \<Rightarrow> string" where
  "strip s = rev (dropWhile is_space (rev (dropWhile is_space s)))"

definition lstrip_chars :: "string \<Rightarrow> string \<Rightarrow> string" where
  "lstrip_chars cs s = dropWhile (\<lambda>c. c \<in> set cs) s"

definition strip_chars :: "string \<Rightarrow> string \<Rightarrow> string" where
  "strip_chars cs s = rev (lstrip_chars cs (rev (lstrip_chars cs s)))"

definition startswith :: "string \<Rightarrow> string \<Rightarrow> bool" where
  "startswith s p = (take (length p) s = p)"

definition endswith :: "string \<Rightarrow> string \<Rightarrow> bool" where
  "endswith s p = (length p \<le> length s \<and> drop (length s - length p) s = p)"

text \<open>\<open>contains s sub\<close> is Python's \<open>sub in s\<close>.\<close>

fun contains :: "string \<Rightarrow> string \<Rightarrow> bool" where
  "contains [] sub = (sub = [])"
| "contains (c # cs) sub = (startswith (c # cs) sub \<or> contains cs sub)"

text \<open>\<open>s.split(sep)\<close> for a separator of one character: the result is never empty.\<close>

fun py_split :: "char \<Rightarrow> string \<Rightarrow> string list" where
  "py_split sep [] = [[]]"
| "py_split sep (c # cs) =
     (if c = sep then [] # py_split sep cs
      else (case py_split sep cs of [] \<Rightarrow> [[c]] | p # ps \<Rightarrow> (c # p) # ps))"

fun py_join :: "string \<Rightarrow> string list \<Rightarrow> string" where
  "py_join sep [] = []"
| "py_join sep [x] = x"
| "py_join sep (x # y # ys) = x @ sep @ py_join sep (y # ys)"

section \<open>Regular expressions\<close>

text \<open>
  The patterns of the program use literals, character classes, the dot, concatenation,
  alternation, the greedy quantifiers \<open>*\<close>, \<open>+\<close>, \<open>?\<close>, \<open>{n}\<close> and capture groups. \<open>rx_run\<close> is a
  backtracking matcher: from a position (the text still to read, and the groups captured
  so far) it returns every way to match, in the order in which Python's engine tries them,
  so the head of the list is the match Python reports.
\<close>

datatype citem = CChar char | CWord | CSpace | CDigit

fun citem_ok :: "char \<Rightarrow> citem \<Rightarrow> bool" where
  "citem_ok c (CChar d) = (c = d)"
| "citem_ok c CWord = is_word c"
| "citem_ok c CSpace = is_space c"
| "citem_ok c CDigit = is_digit c"

datatype rx =
    Eps
  | Chr char
  | Cls "citem list"
  | NCls "citem list"
  | Dot
  | Cat rx rx
  | Alt rx rx
  | Star rx
  | Opt rx
  | Grp nat rx

type_synonym rx_pos = "string \<times> (nat \<times> string) list"

fun atom_ok :: "rx \<Rightarrow> char \<Rightarrow> bool" where
  "atom_ok (Chr d) c = (c = d)"
| "atom_ok (Cls is) c = (\<exists>i \<in> set is. citem_ok c i)"
| "atom_ok (NCls is) c = (\<not> (\<exists>i \<in> set is. citem_ok c i))"
| "atom_ok Dot c = (c \<noteq> CHR ''\<newline>'')"
| "atom_ok _ c = False"

definition rx_atom :: "rx \<Rightarrow> rx_pos \<Rightarrow> rx_pos list" where
  "rx_atom r p = (case fst p of [] \<Rightarrow> [] | c # t \<Rightarrow> if atom_ok r c then [(t, snd p)] else [])"

function rx_run :: "rx \<Rightarrow> rx_pos \<Rightarrow> rx_pos list" where
  "rx_run Eps p = [p]"
| "rx_run (Chr d) p = rx_atom (Chr d) p"
| "rx_run (Cls is) p = rx_atom (Cls is) p"
| "rx_run (NCls is) p = rx_atom (NCls is) p"
| "rx_run Dot p = rx_atom Dot p"
| "rx_run (Cat a b) p = concat (map (rx_run b) (rx_run a p))"
| "rx_run (Alt a b) p = rx_run a p @ rx_run b p"
| "rx_run (Opt a) p = rx_run a p @ [p]"
| "rx_run (Star a) p =
     concat (map (\<lambda>q. if length (fst q) < length (fst p) then rx_run (Star a) q else [])
                 (rx_run a p)) @ [p]"
| "rx_run (Grp k a) p =
     map (\<lambda>q. (fst q, (k, take (length (fst p) - length (fst q)) (fst p)) # snd q)) (rx_run a p)"
  by pat_completeness auto
termination
  by (relation "measures [\<lambda>(r, p). size r, \<lambda>(r, p). length (fst p)]") auto

text \<open>The equation of \<open>Star\<close> unfolds into itself: it is used by hand, not by the simplifier.\<close>

declare rx_run.simps(9) [simp del]

definition Plus :: "rx \<Rightarrow> rx" where
  "Plus a = Cat a (Star a)"

fun Rep :: "nat \<Rightarrow> rx \<Rightarrow> rx" where
  "Rep 0 a = Eps"
| "Rep (Suc n) a = Cat a (Rep n a)"

fun Lit :: "string \<Rightarrow> rx" where
  "Lit [] = Eps"
| "Lit (c # cs) = Cat (Chr c) (Lit cs)"

text \<open>
  A match: the text before it, the matched text (group 0), the captured groups and the
  text after it.
\<close>

record rmatch =
  pre :: string
  matched :: string
  groups :: "(nat \<times> string) list"
  post :: string

definition re_match :: "rx \<Rightarrow> string \<Rightarrow> rmatch option" where
  "re_match r s =
     (case rx_run r (s, []) of
        [] \<Rightarrow> None
      | q # _ \<Rightarrow> Some \<lparr>pre = [], matched = take (length s - length (fst q)) s,
                       groups = snd q, post = fst q\<rparr>)"

fun re_search :: "rx \<Rightarrow> string \<Rightarrow> rmatch option" where
  "re_search r [] = re_match r []"
| "re_search r (c # t) =
     (case re_match r (c # t) of
        Some m \<Rightarrow> Some m
      | None \<Rightarrow> map_option (\<lambda>m. m\<lparr>pre := c # pre m\<rparr>) (re_search r t))"

text \<open>\<open>m.group(k)\<close> for \<open>k > 0\<close>: \<open>None\<close> when the group took no part in the match.\<close>

definition match_group :: "rmatch \<Rightarrow> nat \<Rightarrow> string option" where
  "match_group m k = map_of (groups m) k"

definition Seq :: "rx list \<Rightarrow> rx" where
  "Seq rs = foldr Cat rs Eps"

fun Alts :: "rx list \<Rightarrow> rx" where
  "Alts [] = NCls []"
| "Alts [r] = r"
| "Alts (r # rs) = Alt r (Alts rs)"

lemma rx_atom_suffix: "q \<in> set (rx_atom r p) \<Longrightarrow> suffix (fst q) (fst p)"
  by (cases "fst p") (auto simp: rx_atom_def suffix_ConsI split: if_splits)

lemma rx_run_suffix: "q \<in> set (rx_run r p) \<Longrightarrow> suffix (fst q) (fst p)"
proof (induction r p arbitrary: q rule: rx_run.induct)
  case (1 p)
  then show ?case by simp
next
  case (2 d p)
  then show ?case by (simp add: rx_atom_suffix)
next
  case (3 "is" p)
  then show ?case by (simp add: rx_atom_suffix)
next
  case (4 "is" p)
  then show ?case by (simp add: rx_atom_suffix)
next
  case (5 p)
  then show ?case by (simp add: rx_atom_suffix)
next
  case (6 a b p)
  from "6.prems" obtain m where m: "m \<in> set (rx_run a p)" and q: "q \<in> set (rx_run b m)"
    by auto
  from "6.IH"(1)[OF m] "6.IH"(2)[OF m q] show ?case
    by (rule suffix_order.trans[rotated])
next
  case (7 a b p)
  from "7.prems" have "q \<in> set (rx_run a p) \<or> q \<in> set (rx_run b p)" by simp
  with "7.IH" show ?case by blast
next
  case (8 a p)
  from "8.prems" have "q \<in> set (rx_run a p) \<or> q = p" by auto
  then show ?case
  proof
    assume "q \<in> set (rx_run a p)"
    then show ?thesis by (rule "8.IH")
  next
    assume "q = p"
    then show ?thesis by simp
  qed
next
  case (9 a p)
  show ?case
  proof (cases "q = p")
    case True
    then show ?thesis by simp
  next
    case False
    have "rx_run (Star a) p =
        concat (map (\<lambda>q. if length (fst q) < length (fst p) then rx_run (Star a) q else [])
                 (rx_run a p)) @ [p]"
      by (rule rx_run.simps)
    with "9.prems" False obtain m where m: "m \<in> set (rx_run a p)"
      and lt: "length (fst m) < length (fst p)" and q: "q \<in> set (rx_run (Star a) m)"
      by (auto split: if_splits)
    from "9.IH"(1)[OF m] "9.IH"(2)[OF m lt q] show ?thesis
      by (rule suffix_order.trans[rotated])
  qed
next
  case (10 k a p)
  from "10.prems" obtain m where "m \<in> set (rx_run a p)" "fst q = fst m"
    by auto
  with "10.IH" show ?case by simp
qed

lemma re_match_parts: "re_match r s = Some m \<Longrightarrow> s = pre m @ matched m @ post m"
proof -
  assume a: "re_match r s = Some m"
  then obtain q qs where q: "rx_run r (s, []) = q # qs"
    and m: "m = \<lparr>pre = [], matched = take (length s - length (fst q)) s, groups = snd q, post = fst q\<rparr>"
    by (auto simp: re_match_def split: list.splits)
  from q have "suffix (fst q) s"
    using rx_run_suffix[of q r "(s, [])"] by simp
  then obtain u where "s = u @ fst q"
    by (auto simp: suffix_def)
  with m show ?thesis by simp
qed

lemma re_search_parts: "re_search r s = Some m \<Longrightarrow> s = pre m @ matched m @ post m"
proof (induction s arbitrary: m)
  case Nil
  then have "re_match r [] = Some m" by simp
  then show ?case by (rule re_match_parts)
next
  case (Cons c t)
  show ?case
  proof (cases "re_match r (c # t)")
    case None
    with Cons.prems obtain m' where m': "re_search r t = Some m'" and m: "m = m'\<lparr>pre := c # pre m'\<rparr>"
      by auto
    from Cons.IH[OF m'] m show ?thesis by simp
  next
    case (Some m')
    with Cons.prems have "m' = m" by simp
    with Some have "re_match r (c # t) = Some m" by simp
    then show ?thesis by (rule re_match_parts)
  qed
qed

text \<open>
  \<open>re.split\<close>: the pieces between the successive matches. A pattern that can match the empty
  string splits at empty matches too in Python; the one pattern the program splits on
  always consumes a separator character, and the model stops splitting at an empty match.
\<close>

function re_split :: "rx \<Rightarrow> string \<Rightarrow> string list" where
  "re_split r s =
     (case re_search r s of
        None \<Rightarrow> [s]
      | Some m \<Rightarrow> if matched m = [] then [s] else pre m # re_split r (post m))"
  by pat_completeness auto
termination
proof (relation "measure (\<lambda>(r, s). length s)")
  fix r s m
  show "re_search r s = Some m \<Longrightarrow> matched m \<noteq> [] \<Longrightarrow>
    ((r, post m), (r, s)) \<in> measure (\<lambda>(r, s). length s)"
  proof -
    assume a: "re_search r s = Some m" and ne: "matched m \<noteq> []"
    have "length s = length (pre m @ matched m @ post m)"
      using re_search_parts[OF a] by simp
    then have "length s = length (pre m) + length (matched m) + length (post m)"
      by simp
    moreover from ne have "0 < length (matched m)" by simp
    ultimately show ?thesis by simp
  qed
qed simp

section \<open>Errors\<close>

text \<open>
  The exceptions the parser can raise: those of reading the file (the explicit
  \<open>FileNotFoundError\<close>, and what \<open>open\<close> and \<open>read\<close> raise for a path that exists), and those
  of an operation whose argument is out of range (an index into a list, a key of a dict,
  a method of \<open>None\<close>). Every such operation is a function into \<open>py_error + 'a\<close>, and the
  functions that use it pass the error on.
\<close>

datatype py_error =
    FileNotFoundError | IsADirectoryError | PermissionError | UnicodeDecodeError
  | IndexError | KeyError | AttributeError

definition bind_err :: "py_error + 'a \<Rightarrow> ('a \<Rightarrow> py_error + 'b) \<Rightarrow> py_error + 'b" where
  "bind_err x f = (case x of Inl e \<Rightarrow> Inl e | Inr v \<Rightarrow> f v)"

fun fold_err :: "('s \<Rightarrow> 'a \<Rightarrow> py_error + 's) \<Rightarrow> 's \<Rightarrow> 'a list \<Rightarrow> py_error + 's" where
  "fold_err f s [] = Inr s"
| "fold_err f s (x # xs) = (case f s x of Inl e \<Rightarrow> Inl e | Inr s' \<Rightarrow> fold_err f s' xs)"

text \<open>\<open>xs[i]\<close> for \<open>i \<ge> 0\<close>.\<close>

definition py_index :: "'a list \<Rightarrow> nat \<Rightarrow> py_error + 'a" where
  "py_index xs i = (if i < length xs then Inr (xs ! i) else Inl IndexError)"

text \<open>
  A dict keeps its keys in insertion order: an association list with distinct keys.
  \<open>d[k] = v\<close> is \<open>AList.update k v d\<close> (a new key goes to the end, an old one keeps its place),
  \<open>d[k]\<close> is \<open>dict_get d k\<close>.
\<close>

definition dict_get :: "('k \<times> 'v) list \<Rightarrow> 'k \<Rightarrow> py_error + 'v" where
  "dict_get d k = (case map_of d k of None \<Rightarrow> Inl KeyError | Some v \<Rightarrow> Inr v)"

text \<open>A string method called on \<open>m.group(k)\<close> raises when the group is \<open>None\<close>.\<close>

definition group_str :: "rmatch \<Rightarrow> nat \<Rightarrow> py_error + string" where
  "group_str m k = (case match_group m k of None \<Rightarrow> Inl AttributeError | Some g \<Rightarrow> Inr g)"

section \<open>The parser (resume\_export/parser.py)\<close>

record contact_info =
  location :: string
  email :: string
  phone :: string
  linkedin :: string
  github :: string
  website :: string

record job_entry =
  title :: string
  company :: string
  job_location :: string
  dates :: string
  description :: string
  achievements :: "string list"

record education_entry =
  degree :: string
  school :: string
  year :: string
  details :: "string list"

record resume_data =
  name :: string
  contact :: contact_info
  summary :: string
  skills :: "(string \<times> string list) list"
  experience :: "job_entry list"
  education :: "education_entry list"
  certifications :: "string list"
  raw_sections :: "(string \<times> string) list"

definition nl :: char where
  "nl = CHR ''\<newline>''"

subsection \<open>The patterns\<close>

definition rx_digit :: rx where "rx_digit = Cls [CDigit]"
definition rx_space :: rx where "rx_space = Cls [CSpace]"
definition rx_sep :: rx where "rx_sep = Cls [CChar CHR ''-'', CChar CHR ''.'', CSpace]"

text \<open>\<^verbatim>\<open>[\w\.-]+@[\w\.-]+\.\w+\<close>\<close>

definition email_rx :: rx where
  "email_rx = Seq [Plus (Cls [CWord, CChar CHR ''.'', CChar CHR ''-'']), Chr CHR ''@'',
                   Plus (Cls [CWord, CChar CHR ''.'', CChar CHR ''-'']), Chr CHR ''.'',
                   Plus (Cls [CWord])]"

text \<open>\<^verbatim>\<open>\(?\d{3}\)?[-.\s]?\d{3}[-.\s]?\d{4}\<close>\<close>

definition phone_rx :: rx where
  "phone_rx = Seq [Opt (Chr CHR ''(''), Rep 3 rx_digit, Opt (Chr CHR '')''), Opt rx_sep,
                   Rep 3 rx_digit, Opt rx_sep, Rep 4 rx_digit]"

text \<open>\<^verbatim>\<open>[Ll]inked[Ii]n:\s*([\w\.\-/]+)\<close>\<close>

definition linkedin_rx :: rx where
  "linkedin_rx = Seq [Cls [CChar CHR ''L'', CChar CHR ''l''], Lit ''inked'',
                      Cls [CChar CHR ''I'', CChar CHR ''i''], Lit ''n:'', Star rx_space,
                      Grp 1 (Plus (Cls [CWord, CChar CHR ''.'', CChar CHR ''-'', CChar CHR ''/'']))]"

text \<open>\<^verbatim>\<open>[Gg]it[Hh]ub:\s*([\w\.\-/]+)\<close>\<close>

definition github_rx :: rx where
  "github_rx = Seq [Cls [CChar CHR ''G'', CChar CHR ''g''], Lit ''it'',
                    Cls [CChar CHR ''H'', CChar CHR ''h''], Lit ''ub:'', Star rx_space,
                    Grp 1 (Plus (Cls [CWord, CChar CHR ''.'', CChar CHR ''-'', CChar CHR ''/'']))]"

text \<open>\<^verbatim>\<open>\d{3}[-.\s]?\d{3}[-.\s]?\d{4}\<close>\<close>

definition phone_like_rx :: rx where
  "phone_like_rx = Seq [Rep 3 rx_digit, Opt rx_sep, Rep 3 rx_digit, Opt rx_sep, Rep 4 rx_digit]"

text \<open>\<^verbatim>\<open>\*\*([^*]+)\*\*:\s*(.+)\<close>\<close>

definition skills_rx :: rx where
  "skills_rx = Seq [Lit ''**'', Grp 1 (Plus (NCls [CChar CHR ''*''])), Lit ''**:'', Star rx_space,
                    Grp 2 (Plus Dot)]"

text \<open>\<^verbatim>\<open>\d{4}|[Jj]an|[Ff]eb|[Mm]ar|[Aa]pr|[Mm]ay|[Jj]un|[Jj]ul|[Aa]ug|[Ss]ep|[Oo]ct|[Nn]ov|[Dd]ec\<close>\<close>

definition month_rx :: "char \<Rightarrow> char \<Rightarrow> string \<Rightarrow> rx" where
  "month_rx u l rest = Cat (Cls [CChar u, CChar l]) (Lit rest)"

definition dates_rx :: rx where
  "dates_rx = Alts [Rep 4 rx_digit,
     month_rx CHR ''J'' CHR ''j'' ''an'', month_rx CHR ''F'' CHR ''f'' ''eb'',
     month_rx CHR ''M'' CHR ''m'' ''ar'', month_rx CHR ''A'' CHR ''a'' ''pr'',
     month_rx CHR ''M'' CHR ''m'' ''ay'', month_rx CHR ''J'' CHR ''j'' ''un'',
     month_rx CHR ''J'' CHR ''j'' ''ul'', month_rx CHR ''A'' CHR ''a'' ''ug'',
     month_rx CHR ''S'' CHR ''s'' ''ep'', month_rx CHR ''O'' CHR ''o'' ''ct'',
     month_rx CHR ''N'' CHR ''n'' ''ov'', month_rx CHR ''D'' CHR ''d'' ''ec'']"

text \<open>\<^verbatim>\<open>\*\*([^*]+)\*\*(.+)?\<close>\<close>

definition degree_rx :: rx where
  "degree_rx = Seq [Lit ''**'', Grp 1 (Plus (NCls [CChar CHR ''*''])), Lit ''**'',
                    Opt (Grp 2 (Plus Dot))]"

text \<open>\<^verbatim>\<open>\s*[|\-]\s*\<close>\<close>

definition edu_split_rx :: rx where
  "edu_split_rx = Seq [Star rx_space, Cls [CChar CHR ''|'', CChar CHR ''-''], Star rx_space]"

text \<open>\<^verbatim>\<open>\d{4}\<close>\<close>

definition year_rx :: rx where
  "year_rx = Rep 4 rx_digit"

subsection \<open>Name and contact block\<close>

text \<open>
  The functions below take \<open>self.lines\<close>, the content split at newlines, where the methods
  of the source read it from the parser object.
\<close>

fun extract_name :: "string list \<Rightarrow> string" where
  "extract_name [] = ''Resume''"
| "extract_name (l # ls) =
     (let line = strip l in
      if startswith line ''# '' then strip (drop 2 line) else extract_name ls)"

text \<open>The first loop of \<open>_extract_contact\<close>; the flag is \<open>in_contact_section\<close>.\<close>

fun contact_lines :: "bool \<Rightarrow> string list \<Rightarrow> string list" where
  "contact_lines in_contact_section [] = []"
| "contact_lines in_contact_section (l # ls) =
     (let line = strip l in
      if startswith line ''# '' then contact_lines True ls
      else if startswith line ''## '' then []
      else if in_contact_section \<and> line \<noteq> [] then line # contact_lines in_contact_section ls
      else contact_lines in_contact_section ls)"

text \<open>
  The last loop of \<open>_extract_contact\<close>: the value of \<open>contact["location"]\<close> after it.
  \<open>re.split(r'\|', s)\<close> splits at every bar, as \<open>s.split('|')\<close> does.
\<close>

fun extract_location :: "string list \<Rightarrow> py_error + string" where
  "extract_location [] = Inr []"
| "extract_location (l # ls) =
     (let line_clean = strip l in
      if line_clean \<noteq> [] \<and>
         \<not> contains line_clean ''@'' \<and>
         \<not> contains (lower line_clean) ''linkedin'' \<and>
         \<not> contains (lower line_clean) ''github'' \<and>
         re_search phone_like_rx line_clean = None
      then (case py_index (py_split CHR ''|'' line_clean) 0 of
              Inl e \<Rightarrow> Inl e
            | Inr first \<Rightarrow>
                (let loc = strip first in
                 if loc \<noteq> [] then Inr loc else extract_location ls))
      else extract_location ls)"

text \<open>
  \<open>_extract_contact\<close>. Group 1 of the two labelled-link patterns takes part in every match;
  the model reads it with \<open>group_str\<close>, so a missing group would show as an error.
\<close>

definition extract_contact :: "string list \<Rightarrow> py_error + contact_info" where
  "extract_contact lines =
     (let cl = contact_lines False lines;
          contact_text = py_join '' '' cl;
          c0 = \<lparr>location = [], email = [], phone = [], linkedin = [], github = [], website = []\<rparr>;
          c1 = (case re_search email_rx contact_text of
                  Some m \<Rightarrow> c0\<lparr>email := matched m\<rparr> | None \<Rightarrow> c0);
          c2 = (case re_search phone_rx contact_text of
                  Some m \<Rightarrow> c1\<lparr>phone := matched m\<rparr> | None \<Rightarrow> c1)
      in bind_err (case re_search linkedin_rx contact_text of
                     Some m \<Rightarrow> bind_err (group_str m 1) (\<lambda>g. Inr (c2\<lparr>linkedin := g\<rparr>))
                   | None \<Rightarrow> Inr c2) (\<lambda>c3.
         bind_err (case re_search github_rx contact_text of
                     Some m \<Rightarrow> bind_err (group_str m 1) (\<lambda>g. Inr (c3\<lparr>github := g\<rparr>))
                   | None \<Rightarrow> Inr c3) (\<lambda>c4.
         bind_err (extract_location cl) (\<lambda>loc. Inr (c4\<lparr>location := loc\<rparr>)))))"

subsection \<open>Sections\<close>

text \<open>
  \<open>_split_into_sections\<close>. \<open>current_section\<close> is \<open>None\<close> or a string, and \<open>if current_section\<close>
  holds for a string that is not empty.
\<close>

definition section_open :: "string option \<Rightarrow> bool" where
  "section_open current_section = (case current_section of None \<Rightarrow> False | Some n \<Rightarrow> n \<noteq> [])"

definition save_section ::
  "(string \<times> string) list \<Rightarrow> string option \<Rightarrow> string list \<Rightarrow> (string \<times> string) list" where
  "save_section sections current_section section_content =
     (case current_section of
        None \<Rightarrow> sections
      | Some n \<Rightarrow> if n \<noteq> [] then AList.update n (py_join [nl] section_content) sections
                  else sections)"

fun sections_loop ::
  "(string \<times> string) list \<Rightarrow> string option \<Rightarrow> string list \<Rightarrow> string list \<Rightarrow>
   (string \<times> string) list" where
  "sections_loop sections current_section section_content [] =
     save_section sections current_section section_content"
| "sections_loop sections current_section section_content (line # ls) =
     (if startswith line ''## ''
      then sections_loop (save_section sections current_section section_content)
             (Some (strip (drop 3 line))) [] ls
      else if section_open current_section
      then sections_loop sections current_section (section_content @ [line]) ls
      else sections_loop sections current_section section_content ls)"

definition split_into_sections :: "string list \<Rightarrow> (string \<times> string) list" where
  "split_into_sections lines = sections_loop [] None [] lines"

subsection \<open>Summary, skills, certifications\<close>

definition parse_summary :: "string \<Rightarrow> string" where
  "parse_summary content =
     py_join '' '' (map strip (filter (\<lambda>line. strip line \<noteq> []) (py_split nl content)))"

text \<open>One turn of the loop of \<open>_parse_skills\<close>, on the state \<open>(skills, current_category)\<close>.\<close>

definition skills_line ::
  "(string \<times> string list) list \<times> string \<Rightarrow> string \<Rightarrow>
   py_error + ((string \<times> string list) list \<times> string)" where
  "skills_line st raw =
     (let sk = fst st; current_category = snd st; line = strip raw in
      if line = [] then Inr st
      else if startswith line ''### '' then
        (let c = strip (drop 4 line) in Inr (AList.update c [] sk, c))
      else if startswith line ''**'' \<and> endswith line ''**'' then
        (let c = strip (strip_chars ''*'' line) in Inr (AList.update c [] sk, c))
      else if contains line ''**'' \<and> contains line '':'' then
        (case re_match skills_rx line of
           None \<Rightarrow> Inr st
         | Some m \<Rightarrow>
             bind_err (group_str m 1) (\<lambda>g1.
             bind_err (group_str m 2) (\<lambda>g2.
               (let category = strip g1; skills_text = strip g2 in
                Inr (AList.update category (map strip (py_split CHR '','' skills_text)) sk,
                     current_category)))))
      else
        (let sk1 = (if current_category \<notin> set (map fst sk)
                    then AList.update current_category [] sk else sk) in
         if contains line '',''
         then bind_err (dict_get sk1 current_category) (\<lambda>v.
                Inr (AList.update current_category (v @ map strip (py_split CHR '','' line)) sk1,
                     current_category))
         else bind_err (dict_get sk1 current_category) (\<lambda>v.
                Inr (AList.update current_category (v @ [line]) sk1, current_category))))"

definition parse_skills :: "string \<Rightarrow> py_error + (string \<times> string list) list" where
  "parse_skills content =
     bind_err (fold_err skills_line ([], ''General'') (py_split nl content)) (\<lambda>st. Inr (fst st))"

definition parse_certifications :: "string \<Rightarrow> string list" where
  "parse_certifications content =
     concat (map (\<lambda>raw. let line = strip raw in
                    if line \<noteq> [] \<and> \<not> startswith line ''#''
                    then [if startswith line ''- '' then drop 2 line else line]
                    else [])
                 (py_split nl content))"

subsection \<open>Experience\<close>

definition parse_job_header :: "string \<Rightarrow> py_error + job_entry" where
  "parse_job_header header_line =
     (let job = \<lparr>title = [], company = [], job_location = [], dates = [], description = [],
                 achievements = []\<rparr>;
          parts = map strip (py_split CHR ''|'' header_line)
      in bind_err (if length parts \<ge> 1
                   then bind_err (py_index parts 0) (\<lambda>p. Inr (job\<lparr>title := p\<rparr>))
                   else Inr job) (\<lambda>job.
         bind_err (if length parts \<ge> 2
                   then bind_err (py_index parts 1) (\<lambda>p. Inr (job\<lparr>company := p\<rparr>))
                   else Inr job) (\<lambda>job.
         bind_err (if length parts \<ge> 3
                   then bind_err (py_index parts 2) (\<lambda>third_part.
                          if re_search dates_rx third_part \<noteq> None
                          then Inr (job\<lparr>dates := third_part\<rparr>)
                          else Inr (job\<lparr>job_location := third_part\<rparr>))
                   else Inr job) (\<lambda>job.
         if length parts \<ge> 4
         then bind_err (py_index parts 3) (\<lambda>p. Inr (job\<lparr>dates := p\<rparr>))
         else Inr job))))"

text \<open>
  One turn of the loop of \<open>_parse_experience\<close>, on the state \<open>(experiences, current_job)\<close>.
  A job dict is never empty, so \<open>if current_job\<close> asks whether there is one.
\<close>

definition experience_line ::
  "job_entry list \<times> job_entry option \<Rightarrow> string \<Rightarrow> py_error + (job_entry list \<times> job_entry option)" where
  "experience_line st line =
     (let experiences = fst st; current_job = snd st; line_stripped = strip line in
      if startswith line_stripped ''### '' then
        (let experiences1 = (case current_job of None \<Rightarrow> experiences
                                               | Some j \<Rightarrow> experiences @ [j]) in
         bind_err (parse_job_header (drop 4 line_stripped)) (\<lambda>j.
           Inr (experiences1, Some (j\<lparr>achievements := []\<rparr>))))
      else if startswith line_stripped ''*'' \<and> endswith line_stripped ''*'' then
        (case current_job of
           None \<Rightarrow> Inr st
         | Some j \<Rightarrow>
             if dates j = []
             then Inr (experiences, Some (j\<lparr>dates := strip (strip_chars ''*'' line_stripped)\<rparr>))
             else Inr st)
      else if (case current_job of
                 None \<Rightarrow> False
               | Some j \<Rightarrow> line_stripped \<noteq> [] \<and> \<not> startswith line_stripped ''-'' \<and>
                           \<not> startswith line_stripped ''*'' \<and> description j = []) then
        Inr (experiences, map_option (\<lambda>j. j\<lparr>description := line_stripped\<rparr>) current_job)
      else if startswith line_stripped ''- '' then
        (case current_job of
           None \<Rightarrow> Inr st
         | Some j \<Rightarrow>
             Inr (experiences,
                  Some (j\<lparr>achievements := achievements j @ [strip (drop 2 line_stripped)]\<rparr>)))
      else Inr st)"

definition parse_experience :: "string \<Rightarrow> py_error + job_entry list" where
  "parse_experience content =
     bind_err (fold_err experience_line ([], None) (py_split nl content)) (\<lambda>st.
       Inr (case snd st of None \<Rightarrow> fst st | Some j \<Rightarrow> fst st @ [j]))"

subsection \<open>Education\<close>

text \<open>
  The loop of \<open>_parse_education\<close> appends the dict \<open>current_edu\<close> to the list \<open>education\<close> when
  a degree line arrives, and replaces it by a new dict only if the degree pattern matches.
  When it does not match, the list and \<open>current_edu\<close> hold the same dict, and a later
  \<open>current_edu["details"].append\<close> shows in the list too. The state of the model is
  \<open>(education, current_edu, shared)\<close>, where the last \<open>shared\<close> elements of \<open>education\<close> are that
  same dict: a detail line rewrites them together with \<open>current_edu\<close>.
\<close>

type_synonym edu_state = "education_entry list \<times> education_entry option \<times> nat"

definition edu_header :: "rmatch \<Rightarrow> py_error + education_entry" where
  "edu_header degree_match =
     bind_err (group_str degree_match 1) (\<lambda>g1.
       (let rest = (case match_group degree_match 2 of
                      None \<Rightarrow> []
                    | Some g2 \<Rightarrow> if g2 \<noteq> [] then strip g2 else []);
            current_edu = \<lparr>degree = strip g1, school = [], year = [], details = []\<rparr>
        in if rest \<noteq> [] then
             (let rest1 = strip (lstrip_chars ''|-'' rest);
                  parts = re_split edu_split_rx rest1
              in bind_err (if length parts \<ge> 1
                           then bind_err (py_index parts 0) (\<lambda>p.
                                  Inr (current_edu\<lparr>school := strip p\<rparr>))
                           else Inr current_edu) (\<lambda>current_edu.
                 if length parts \<ge> 2
                 then bind_err (py_index parts 1) (\<lambda>p.
                        case re_search year_rx p of
                          Some year_match \<Rightarrow> Inr (current_edu\<lparr>year := matched year_match\<rparr>)
                        | None \<Rightarrow> Inr (current_edu\<lparr>year := strip p\<rparr>))
                 else Inr current_edu))
           else Inr current_edu))"

definition education_line :: "edu_state \<Rightarrow> string \<Rightarrow> py_error + edu_state" where
  "education_line st raw =
     (let education = fst st; current_edu = fst (snd st); shared = snd (snd st);
          line = strip raw in
      if line = [] then Inr st
      else if startswith line ''**'' \<and> contains (drop 2 line) ''**'' then
        (let education1 = (case current_edu of None \<Rightarrow> education | Some e \<Rightarrow> education @ [e]);
             shared1 = (case current_edu of None \<Rightarrow> shared | Some e \<Rightarrow> Suc shared) in
         case re_match degree_rx line of
           None \<Rightarrow> Inr (education1, current_edu, shared1)
         | Some degree_match \<Rightarrow>
             bind_err (edu_header degree_match) (\<lambda>e. Inr (education1, Some e, 0)))
      else
        (case current_edu of
           None \<Rightarrow> Inr st
         | Some e \<Rightarrow>
             (let e1 = e\<lparr>details := details e @ [line]\<rparr> in
              Inr (take (length education - shared) education @ replicate shared e1,
                   Some e1, shared))))"

definition parse_education :: "string \<Rightarrow> py_error + education_entry list" where
  "parse_education content =
     bind_err (fold_err education_line ([], None, 0) (py_split nl content)) (\<lambda>st.
       Inr (case fst (snd st) of None \<Rightarrow> fst st | Some e \<Rightarrow> fst st @ [e]))"

subsection \<open>The whole document\<close>

text \<open>The body of the loop of \<open>parse\<close> over the sections, in the order of the dict.\<close>

definition parse_section :: "resume_data \<Rightarrow> string \<times> string \<Rightarrow> py_error + resume_data" where
  "parse_section data sec =
     (let section_name = fst sec; section_content = snd sec;
          section_lower = lower section_name in
      if contains section_lower ''summary'' then
        Inr (data\<lparr>summary := parse_summary section_content\<rparr>)
      else if contains section_lower ''skill'' then
        bind_err (parse_skills section_content) (\<lambda>v. Inr (data\<lparr>skills := v\<rparr>))
      else if contains section_lower ''experience'' then
        bind_err (parse_experience section_content) (\<lambda>v. Inr (data\<lparr>experience := v\<rparr>))
      else if contains section_lower ''education'' then
        bind_err (parse_education section_content) (\<lambda>v. Inr (data\<lparr>education := v\<rparr>))
      else if contains section_lower ''certification'' then
        Inr (data\<lparr>certifications := parse_certifications section_content\<rparr>)
      else
        Inr (data\<lparr>raw_sections :=
               AList.update section_name section_content (raw_sections data)\<rparr>))"

definition empty_data :: resume_data where
  "empty_data =
     \<lparr>name = [],
      contact = \<lparr>location = [], email = [], phone = [], linkedin = [], github = [],
                 website = []\<rparr>,
      summary = [], skills = [], experience = [], education = [], certifications = [],
      raw_sections = []\<rparr>"

text \<open>\<open>ResumeParser.parse\<close>, from the content of the file.\<close>

definition parse :: "string \<Rightarrow> py_error + resume_data" where
  "parse content =
     (let lines = py_split nl content;
          data = empty_data\<lparr>name := extract_name lines\<rparr>
      in bind_err (extract_contact lines) (\<lambda>c.
           fold_err parse_section (data\<lparr>contact := c\<rparr>) (split_into_sections lines)))"

text \<open>
  What a path names, when it exists: a directory, a file that the process may not read, a
  file whose bytes are not UTF-8, or a file with the text that \<open>f.read()\<close> returns. The file
  system gives \<open>None\<close> for a path that does not exist.
\<close>

datatype fs_entry = Directory | Unreadable | NotUtf8 | TextFile string

type_synonym file_system = "string \<Rightarrow> fs_entry option"

text \<open>
  \<open>_read_file\<close>: the test of \<open>exists()\<close> raises \<open>FileNotFoundError\<close>; then \<open>open\<close> raises for a
  directory and for a file without read permission, and \<open>read\<close> raises for bytes that do
  not decode. \<open>parse_resume\<close> builds the parser, which reads the file, and parses.
\<close>

definition read_file :: "file_system \<Rightarrow> string \<Rightarrow> py_error + string" where
  "read_file fs markdown_path =
     (case fs markdown_path of
        None \<Rightarrow> Inl FileNotFoundError
      | Some Directory \<Rightarrow> Inl IsADirectoryError
      | Some Unreadable \<Rightarrow> Inl PermissionError
      | Some NotUtf8 \<Rightarrow> Inl UnicodeDecodeError
      | Some (TextFile content) \<Rightarrow> Inr content)"

definition parse_resume :: "file_system \<Rightarrow> string \<Rightarrow> py_error + resume_data" where
  "parse_resume fs markdown_path = bind_err (read_file fs markdown_path) parse"

section \<open>The validator (resume\_export/validators/ats\_checker.py)\<close>

text \<open>
  A \<open>ValidationResult\<close>. Its message is left out: two of the messages join the elements of a
  Python \<open>set\<close>, whose order is not fixed, and no check reads a message.
\<close>

record validation_result =
  check_name :: string
  passed :: bool
  severity :: string

text \<open>
  What the validator reads of an opened document: of each paragraph its text and the font
  name of each of its runs (\<open>None\<close> when the run sets none), the tables (only counted), and
  the \<open>target_ref\<close> of each relationship of the document part.
\<close>

record docx_paragraph =
  para_text :: string
  run_fonts :: "string option list"

datatype docx_table = Table

record docx_document =
  paragraphs :: "docx_paragraph list"
  tables :: "docx_table list"
  rels :: "string list"

text \<open>
  The file at \<open>docx_path\<close>: absent, present but not a document that \<open>Document(docx_path)\<close>
  opens, or a document of a size in bytes.
\<close>

datatype artifact = NoFile | BadFile | DocxFile nat docx_document

definition ATS_FRIENDLY_FONTS :: "string list" where
  "ATS_FRIENDLY_FONTS = [''Calibri'', ''Arial'', ''Times New Roman'', ''Georgia'', ''Helvetica'']"

definition MIN_PAGES :: nat where "MIN_PAGES = 1"
definition MAX_PAGES :: nat where "MAX_PAGES = 2"

text \<open>
  \<open>st_size / (1024 * 1024) <= 1.0\<close>: the quotient by a power of two and the bound are exact
  in floating point, so the comparison is the one of the integers.
\<close>

definition check_file_size :: "nat \<Rightarrow> validation_result" where
  "check_file_size st_size =
     (if st_size \<le> 1024 * 1024
      then \<lparr>check_name = ''File Size'', passed = True, severity = ''info''\<rparr>
      else \<lparr>check_name = ''File Size'', passed = False, severity = ''critical''\<rparr>)"

definition non_ats_fonts :: "docx_document \<Rightarrow> string list" where
  "non_ats_fonts doc =
     concat (map (\<lambda>para.
       concat (map (\<lambda>font_name. case font_name of
                      None \<Rightarrow> []
                    | Some f \<Rightarrow> if f \<noteq> [] \<and> f \<notin> set ATS_FRIENDLY_FONTS then [f] else [])
                   (run_fonts para)))
       (paragraphs doc))"

definition check_fonts :: "docx_document \<Rightarrow> validation_result" where
  "check_fonts doc =
     (if non_ats_fonts doc = []
      then \<lparr>check_name = ''Fonts'', passed = True, severity = ''info''\<rparr>
      else \<lparr>check_name = ''Fonts'', passed = False, severity = ''warning''\<rparr>)"

definition check_tables :: "docx_document \<Rightarrow> validation_result" where
  "check_tables doc =
     (let table_count = length (tables doc) in
      if table_count = 0
      then \<lparr>check_name = ''Tables'', passed = True, severity = ''info''\<rparr>
      else \<lparr>check_name = ''Tables'', passed = False, severity = ''critical''\<rparr>)"

fun count_loop :: "('a \<Rightarrow> bool) \<Rightarrow> nat \<Rightarrow> 'a list \<Rightarrow> nat" where
  "count_loop hit n [] = n"
| "count_loop hit n (x # xs) = count_loop hit (if hit x then n + 1 else n) xs"

definition check_images :: "docx_document \<Rightarrow> validation_result" where
  "check_images doc =
     (let image_count = count_loop (\<lambda>target_ref. contains (lower target_ref) ''image'') 0 (rels doc) in
      if image_count = 0
      then \<lparr>check_name = ''Images'', passed = True, severity = ''info''\<rparr>
      else \<lparr>check_name = ''Images'', passed = False, severity = ''critical''\<rparr>)"

definition default_standard_sections :: "string list" where
  "default_standard_sections =
     [''Summary'', ''Professional Summary'', ''Core Skills'', ''Skills'', ''Technical Skills'',
      ''Experience'', ''Professional Experience'', ''Work Experience'', ''Education'']"

text \<open>
  The validator's configuration is the list \<open>ats_rules.standard_sections\<close> of the styles file
  when the file gives one (\<open>None\<close>: the built-in list).
\<close>

definition check_sections :: "string list option \<Rightarrow> docx_document \<Rightarrow> validation_result" where
  "check_sections cfg doc =
     (let standard_sections = (case cfg of None \<Rightarrow> default_standard_sections | Some l \<Rightarrow> l);
          paragraph_text = filter (\<lambda>t. t \<noteq> []) (map (\<lambda>p. strip (para_text p)) (paragraphs doc));
          found_sections = filter (\<lambda>section. \<exists>t \<in> set paragraph_text.
                                     contains (lower t) (lower section)) standard_sections;
          has_experience = (\<exists>s \<in> set found_sections. contains (lower s) ''experience'');
          has_education = (\<exists>s \<in> set found_sections. contains (lower s) ''education'')
      in if has_experience \<and> has_education
         then \<lparr>check_name = ''Sections'', passed = True, severity = ''info''\<rparr>
         else \<lparr>check_name = ''Sections'', passed = False, severity = ''warning''\<rparr>)"

definition estimated_pages :: "docx_document \<Rightarrow> nat" where
  "estimated_pages doc =
     (let paragraph_count = length (filter (\<lambda>p. strip (para_text p) \<noteq> []) (paragraphs doc))
      in max 1 (paragraph_count div 30))"

definition check_page_length :: "docx_document \<Rightarrow> validation_result" where
  "check_page_length doc =
     (if MIN_PAGES \<le> estimated_pages doc \<and> estimated_pages doc \<le> MAX_PAGES
      then \<lparr>check_name = ''Length'', passed = True, severity = ''info''\<rparr>
      else if estimated_pages doc < MIN_PAGES
      then \<lparr>check_name = ''Length'', passed = False, severity = ''info''\<rparr>
      else \<lparr>check_name = ''Length'', passed = False, severity = ''warning''\<rparr>)"

definition check_formatting :: "docx_document \<Rightarrow> validation_result list" where
  "check_formatting doc =
     (let spacing_issues = count_loop (\<lambda>para. strip (para_text para) = []) 0 (paragraphs doc);
          results = (if spacing_issues > 10
                     then [\<lparr>check_name = ''Spacing'', passed = False, severity = ''warning''\<rparr>]
                     else [\<lparr>check_name = ''Spacing'', passed = True, severity = ''info''\<rparr>]);
          long_lines = count_loop (\<lambda>para. length (para_text para) > 150) 0 (paragraphs doc)
      in if long_lines > 5
         then results @ [\<lparr>check_name = ''Line Length'', passed = False, severity = ''info''\<rparr>]
         else results)"

definition validate :: "string list option \<Rightarrow> artifact \<Rightarrow> bool \<times> validation_result list" where
  "validate cfg file =
     (case file of
        NoFile \<Rightarrow>
          (False, [\<lparr>check_name = ''File Existence'', passed = False, severity = ''critical''\<rparr>])
      | BadFile \<Rightarrow>
          (False, [\<lparr>check_name = ''File Format'', passed = False, severity = ''critical''\<rparr>])
      | DocxFile st_size doc \<Rightarrow>
          (let results = [check_file_size st_size, check_fonts doc, check_tables doc,
                          check_images doc, check_sections cfg doc, check_page_length doc]
                         @ check_formatting doc;
               critical_failures = filter (\<lambda>r. \<not> passed r \<and> severity r = ''critical'') results
           in (length critical_failures = 0, results)))"

section \<open>The renderer (resume\_export/docx\_builder.py)\<close>

text \<open>
  The style configuration that \<open>build\<close> reads: the font entries (each key of an entry may be
  absent, and \<open>.get\<close> supplies a default), the entry \<open>dates\<close> that may be absent as a whole,
  and the spacing values. The margins are used when the builder is created, not by \<open>build\<close>.
\<close>

record font_config =
  font_name :: "string option"
  font_size :: "nat option"
  font_bold :: "bool option"

record style_config =
  fonts_body :: font_config
  fonts_name :: font_config
  fonts_section_header :: font_config
  fonts_job_title :: font_config
  fonts_dates :: "font_config option"
  spacing_paragraph :: nat
  spacing_section :: nat
  spacing_before_header :: "nat option"
  spacing_after_header :: "nat option"

definition default_styles :: style_config where
  "default_styles =
     \<lparr>fonts_body = \<lparr>font_name = Some ''Calibri'', font_size = Some 11, font_bold = None\<rparr>,
      fonts_name = \<lparr>font_name = Some ''Calibri'', font_size = Some 16, font_bold = Some True\<rparr>,
      fonts_section_header =
        \<lparr>font_name = Some ''Calibri'', font_size = Some 12, font_bold = Some True\<rparr>,
      fonts_job_title =
        \<lparr>font_name = Some ''Calibri'', font_size = Some 11, font_bold = Some True\<rparr>,
      fonts_dates = None,
      spacing_paragraph = 6, spacing_section = 12,
      spacing_before_header = None, spacing_after_header = None\<rparr>"

text \<open>\<open>d.get(key, default)\<close> on an entry that may be absent.\<close>

definition get_or :: "'a option \<Rightarrow> 'a \<Rightarrow> 'a" where
  "get_or v d = (case v of None \<Rightarrow> d | Some x \<Rightarrow> x)"

text \<open>
  The document is the list of its paragraphs, in order; every \<open>_add\<close> method appends to it.
  A paragraph has a style, its runs, and what the builder sets on it: centring, the bottom
  border of a section header, the spacing, the hanging indent of a bullet. Every run is
  black; the colour is left out.
\<close>

record run =
  run_text :: string
  run_font :: string
  run_size :: nat
  run_bold :: bool
  run_italic :: bool

record block =
  block_style :: string
  runs :: "run list"
  centered :: bool
  bottom_border :: bool
  space_before :: "nat option"
  space_after :: "nat option"
  hanging_indent :: bool

definition mk_run :: "font_config \<Rightarrow> nat \<Rightarrow> string \<Rightarrow> run" where
  "mk_run fc default_size t =
     \<lparr>run_text = t, run_font = get_or (font_name fc) ''Calibri'',
      run_size = get_or (font_size fc) default_size, run_bold = False, run_italic = False\<rparr>"

definition mk_para :: "run list \<Rightarrow> nat option \<Rightarrow> block" where
  "mk_para rs after =
     \<lparr>block_style = ''Normal'', runs = rs, centered = False, bottom_border = False,
      space_before = None, space_after = after, hanging_indent = False\<rparr>"

definition add_header :: "style_config \<Rightarrow> string \<Rightarrow> contact_info \<Rightarrow> block list \<Rightarrow> block list" where
  "add_header st nm c doc =
     (let name_para =
            (mk_para [(mk_run (fonts_name st) 16 (upper nm))
                        \<lparr>run_bold := get_or (font_bold (fonts_name st)) True\<rparr>] (Some 6))
            \<lparr>centered := True\<rparr>;
          line1_parts = (if location c \<noteq> [] then [location c] else []) @
                        (if email c \<noteq> [] then [email c] else []) @
                        (if phone c \<noteq> [] then [phone c] else []);
          line2_parts = (if linkedin c \<noteq> [] then [''LinkedIn: '' @ linkedin c] else []) @
                        (if github c \<noteq> [] then [''GitHub: '' @ github c] else []) @
                        (if website c \<noteq> [] then [website c] else []);
          contact_lines = (if line1_parts \<noteq> [] then [py_join ''  '' line1_parts] else []) @
                          (if line2_parts \<noteq> [] then [py_join '' | '' line2_parts] else [])
      in doc @ [name_para] @
         map (\<lambda>contact_line.
                (mk_para [mk_run (fonts_body st) 11 contact_line] (Some 3))\<lparr>centered := True\<rparr>)
             contact_lines @
         [mk_para [] (Some (spacing_section st))])"

definition add_section_header :: "style_config \<Rightarrow> string \<Rightarrow> block list \<Rightarrow> block list" where
  "add_section_header st title_text doc =
     doc @ [(mk_para [(mk_run (fonts_section_header st) 12 (upper title_text))
                        \<lparr>run_bold := get_or (font_bold (fonts_section_header st)) True\<rparr>]
                     (Some (get_or (spacing_after_header st) 3)))
              \<lparr>space_before := Some (get_or (spacing_before_header st) 6),
               bottom_border := True\<rparr>]"

definition add_section :: "style_config \<Rightarrow> string \<Rightarrow> string \<Rightarrow> block list \<Rightarrow> block list" where
  "add_section st title_text content doc =
     (let doc1 = add_section_header st title_text doc in
      if strip content \<noteq> []
      then doc1 @ [mk_para [mk_run (fonts_body st) 11 (strip content)] (Some (spacing_section st))]
      else doc1)"

definition add_skills_section ::
  "style_config \<Rightarrow> (string \<times> string list) list \<Rightarrow> block list \<Rightarrow> block list" where
  "add_skills_section st sk doc =
     add_section_header st ''Core Skills'' doc @
     concat (map (\<lambda>entry.
               if snd entry = [] then []
               else [mk_para [(mk_run (fonts_body st) 11 (fst entry))\<lparr>run_bold := True\<rparr>,
                              mk_run (fonts_body st) 11 (nl # py_join '', '' (snd entry))]
                             (Some (spacing_paragraph st))])
             sk) @
     [mk_para [] (Some (spacing_section st))]"

definition job_blocks :: "style_config \<Rightarrow> job_entry \<Rightarrow> block list" where
  "job_blocks st job =
     (let company_parts = (if company job \<noteq> [] then [company job] else []) @
                          (if job_location job \<noteq> [] then [job_location job] else []);
          job_para =
            mk_para ([(mk_run (fonts_job_title st) 11 (title job))\<lparr>run_bold := True\<rparr>] @
                     (if company_parts \<noteq> []
                      then [mk_run (fonts_body st) 11 ('' | '' @ py_join '' | '' company_parts)]
                      else []))
                    (Some 3)
      in [job_para] @
         (if dates job \<noteq> []
          then [mk_para [(mk_run (get_or (fonts_dates st) (fonts_body st)) 11 (dates job))
                           \<lparr>run_italic := True\<rparr>] (Some 6)]
          else []) @
         (if description job \<noteq> []
          then [mk_para [mk_run (fonts_body st) 11 (description job)] (Some 6)]
          else []) @
         map (\<lambda>achievement.
                (mk_para [mk_run (fonts_body st) 11 achievement] (Some 3))
                  \<lparr>block_style := ''List Bullet'', hanging_indent := True\<rparr>)
             (achievements job))"

text \<open>The loop over the jobs: a spacing paragraph follows every job but the last.\<close>

fun experience_loop :: "style_config \<Rightarrow> job_entry list \<Rightarrow> block list" where
  "experience_loop st [] = []"
| "experience_loop st (job # js) =
     job_blocks st job @
     (if js \<noteq> [] then [mk_para [] (Some (spacing_paragraph st))] else []) @
     experience_loop st js"

definition add_experience_section ::
  "style_config \<Rightarrow> job_entry list \<Rightarrow> block list \<Rightarrow> block list" where
  "add_experience_section st experiences doc =
     add_section_header st ''Professional Experience'' doc @
     experience_loop st experiences @
     [mk_para [] (Some (spacing_section st))]"

definition edu_blocks :: "style_config \<Rightarrow> education_entry \<Rightarrow> block list" where
  "edu_blocks st edu =
     (let edu_parts = (if school edu \<noteq> [] then [school edu] else []) @
                      (if year edu \<noteq> [] then [''('' @ year edu @ '')''] else [])
      in [mk_para ([(mk_run (fonts_body st) 11 (degree edu))\<lparr>run_bold := True\<rparr>] @
                   (case edu_parts of
                      [] \<Rightarrow> []
                    | p # ps \<Rightarrow>
                        [mk_run (fonts_body st) 11
                           ('' | '' @ (if length edu_parts = 2 then py_join '' - '' edu_parts
                                       else p))]))
                  (Some (spacing_paragraph st))] @
         map (\<lambda>detail. mk_para [mk_run (fonts_body st) 11 detail] (Some 3))
             (filter (\<lambda>detail. strip detail \<noteq> []) (details edu)))"

definition add_education_section ::
  "style_config \<Rightarrow> education_entry list \<Rightarrow> block list \<Rightarrow> block list" where
  "add_education_section st edus doc =
     add_section_header st ''Education'' doc @
     concat (map (edu_blocks st) edus) @
     [mk_para [] (Some (spacing_section st))]"

definition add_certifications_section ::
  "style_config \<Rightarrow> string list \<Rightarrow> block list \<Rightarrow> block list" where
  "add_certifications_section st certs doc =
     add_section_header st ''Certifications'' doc @
     map (\<lambda>cert. (mk_para [mk_run (fonts_body st) 11 cert] (Some 3))
                   \<lparr>block_style := ''List Bullet''\<rparr>) certs @
     [mk_para [] (Some (spacing_section st))]"

text \<open>
  \<open>build\<close>, from the document as it is when \<open>build\<close> is called (empty, or the paragraphs of
  the template).
\<close>

definition build :: "style_config \<Rightarrow> resume_data \<Rightarrow> block list \<Rightarrow> block list" where
  "build st resume doc =
     (let d1 = add_header st (name resume) (contact resume) doc;
          d2 = (if summary resume \<noteq> [] then add_section st ''Summary'' (summary resume) d1
                else d1);
          d3 = (if skills resume \<noteq> [] then add_skills_section st (skills resume) d2 else d2);
          d4 = (if experience resume \<noteq> []
                then add_experience_section st (experience resume) d3 else d3);
          d5 = (if education resume \<noteq> []
                then add_education_section st (education resume) d4 else d4);
          d6 = (if certifications resume \<noteq> []
                then add_certifications_section st (certifications resume) d5 else d5)
      in fold (\<lambda>sec d. add_section st (fst sec) (snd sec) d) (raw_sections resume) d6)"

section \<open>Notions and examples for the properties\<close>

subsection \<open>Notions\<close>

text \<open>
  The groups that take part in every match of a pattern: those outside every alternation
  and every optional or repeated part.
\<close>

fun rx_groups :: "rx \<Rightarrow> nat set" where
  "rx_groups (Cat a b) = rx_groups a \<union> rx_groups b"
| "rx_groups (Alt a b) = rx_groups a \<inter> rx_groups b"
| "rx_groups (Grp k a) = insert k (rx_groups a)"
| "rx_groups _ = {}"

text \<open>
  The section names that reach the last branch of the loop of \<open>parse\<close>.
\<close>

definition unclaimed :: "string \<Rightarrow> bool" where
  "unclaimed k =
     (\<not> contains (lower k) ''summary'' \<and> \<not> contains (lower k) ''skill'' \<and>
      \<not> contains (lower k) ''experience'' \<and> \<not> contains (lower k) ''education'' \<and>
      \<not> contains (lower k) ''certification'')"

text \<open>
  The spellings that the alternation of \<open>dates_rx\<close> lists: the three-letter abbreviation of
  each month, with the first letter in either case and the other two in lower case.
\<close>

definition month_spellings :: "string list" where
  "month_spellings =
     [''Jan'', ''jan'', ''Feb'', ''feb'', ''Mar'', ''mar'', ''Apr'', ''apr'', ''May'', ''may'',
      ''Jun'', ''jun'', ''Jul'', ''jul'', ''Aug'', ''aug'', ''Sep'', ''sep'', ''Oct'', ''oct'',
      ''Nov'', ''nov'', ''Dec'', ''dec'']"

text \<open>Four decimal digits.\<close>

definition digits4 :: "string \<Rightarrow> bool" where
  "digits4 d = (length d = 4 \<and> list_all is_digit d)"

text \<open>
  What the search for \<open>dates_rx\<close> decides, in words: the segment contains four digits in a
  row, or one of the spellings above.
\<close>

definition contains_year_or_spelling :: "string \<Rightarrow> bool" where
  "contains_year_or_spelling s =
     ((\<exists>d. digits4 d \<and> sublist d s) \<or> (\<exists>m \<in> set month_spellings. sublist m s))"

text \<open>
  The wording of the specification, "a month name or abbreviation", in whatever letter
  case: every month name starts with its three-letter abbreviation, so a segment names a
  month when its lower-case form contains one of the twelve abbreviations.
\<close>

definition names_a_month :: "string \<Rightarrow> bool" where
  "names_a_month s =
     (\<exists>m \<in> set [''jan'', ''feb'', ''mar'', ''apr'', ''may'', ''jun'', ''jul'', ''aug'', ''sep'',
                  ''oct'', ''nov'', ''dec'']. contains (lower s) m)"

text \<open>
  The section headers of a document: the text of each paragraph with a bottom border,
  which only \<open>_add_section_header\<close> sets.
\<close>

definition section_headers :: "block list \<Rightarrow> string list" where
  "section_headers doc = map (\<lambda>b. concat (map run_text (runs b))) (filter bottom_border doc)"

text \<open>
  The lines of a skills section, as the branches of the loop of \<open>_parse_skills\<close> tell them
  apart. A category marker is a line that, stripped, starts with \<open>###\<close> and a space, or
  both starts and ends with \<open>**\<close>: the two branches that assign \<open>current_category\<close>.
\<close>

definition category_marker :: "string \<Rightarrow> bool" where
  "category_marker raw =
     (let line = strip raw in
      line \<noteq> [] \<and> (startswith line ''### '' \<or> (startswith line ''**'' \<and> endswith line ''**'')))"

text \<open>
  A bold label with a colon: a line that is not empty and not a category marker, contains
  \<open>**\<close> and a colon, and matches the pattern of a label at its start.
\<close>

definition bold_label_line :: "string \<Rightarrow> bool" where
  "bold_label_line raw =
     (let line = strip raw in
      line \<noteq> [] \<and> \<not> startswith line ''### '' \<and>
      \<not> (startswith line ''**'' \<and> endswith line ''**'') \<and>
      contains line ''**'' \<and> contains line '':'' \<and> re_match skills_rx line \<noteq> None)"

text \<open>
  A plain line: not empty, not a category marker, and without both \<open>**\<close> and a colon.
\<close>

definition plain_skill_line :: "string \<Rightarrow> bool" where
  "plain_skill_line raw =
     (let line = strip raw in
      line \<noteq> [] \<and> \<not> startswith line ''### '' \<and>
      \<not> (startswith line ''**'' \<and> endswith line ''**'') \<and>
      \<not> (contains line ''**'' \<and> contains line '':''))"

text \<open>
  The items that a plain line contributes: its pieces between the commas, stripped, when
  it has a comma, and the stripped line otherwise.
\<close>

definition skill_items :: "string \<Rightarrow> string list" where
  "skill_items raw =
     (let line = strip raw in
      if contains line '','' then map strip (py_split CHR '','' line) else [line])"

subsection \<open>Example inputs\<close>

text \<open>The text of scenario A.\<close>

definition scenario_a :: string where
  "scenario_a = ''# Jane Doe\<newline>NYC | jane@x.com | 555-123-4567\<newline>## Education\<newline>**BS Computer Science** | MIT | 2020\<newline>''"

text \<open>
  A file system with one file, \<open>resume.md\<close>, holding the text of scenario A.
\<close>

definition one_file :: file_system where
  "one_file = (\<lambda>p. if p = ''resume.md'' then Some (TextFile scenario_a) else None)"

text \<open>
  A file system where \<open>resume.md\<close> exists and its bytes are not UTF-8.
\<close>

definition undecodable_file :: file_system where
  "undecodable_file = (\<lambda>p. if p = ''resume.md'' then Some NotUtf8 else None)"

text \<open>
  A text with a section that no category claims and a section whose name contains both
  \<open>summary\<close> and \<open>skill\<close>.
\<close>

definition two_sections :: string where
  "two_sections = ''# A\<newline>## Projects\<newline>demo\<newline>## Summary of Skills\<newline>fast''"

text \<open>
  A skills section with a bold label with a colon, followed by a plain line.
\<close>

definition label_then_plain :: string where
  "label_then_plain = ''**Lang**: Python, Go\<newline>Docker''"

text \<open>
  Lines that can follow a bold label without changing the category: a blank line, another
  bold label, a plain line.
\<close>

definition lines_after_label :: "string list" where
  "lines_after_label = ['''', ''**Cloud**: AWS'', ''Rust'']"

text \<open>A job heading line with four segments.\<close>

definition job_line_example :: string where
  "job_line_example = ''### Engineer | Acme | Remote | Jan 2020 - Mar 2021''"

text \<open>A job header whose third segment names two months in capitals.\<close>

definition capitals_header :: string where
  "capitals_header = ''Engineer | Acme | JUNE - AUGUST''"

text \<open>
  A small document with the Experience and Education headings, in Calibri, with one table.
\<close>

definition one_table_doc :: docx_document where
  "one_table_doc =
     \<lparr>paragraphs = [\<lparr>para_text = ''Experience'', run_fonts = [Some ''Calibri'']\<rparr>,
                    \<lparr>para_text = ''Education'', run_fonts = [Some ''Calibri'']\<rparr>],
      tables = [Table], rels = []\<rparr>"

text \<open>The same document without the table.\<close>

definition no_table_doc :: docx_document where
  "no_table_doc = one_table_doc\<lparr>tables := []\<rparr>"

text \<open>
  A document with a name and a summary and nothing else.
\<close>

definition summary_only :: resume_data where
  "summary_only = empty_data\<lparr>name := ''Jane Doe'', summary := ''Engineer''\<rparr>"

section \<open>Properties of the parser\<close>

subsection \<open>Scenario A\<close>

text \<open>
  C1, as the code has it: the text of scenario A parses to the name \<open>Jane Doe\<close>, the email
  \<open>jane@x.com\<close>, the phone \<open>555-123-4567\<close> and exactly one education entry with degree
  \<open>BS Computer Science\<close>, school \<open>MIT\<close> and year \<open>2020\<close>. The location is empty: the only
  contact line contains \<open>@\<close>, and the location is taken from a line without it.
\<close>

theorem scenario_a_parsed:
  "parse scenario_a =
     Inr \<lparr>name = ''Jane Doe'',
          contact = \<lparr>location = [], email = ''jane@x.com'', phone = ''555-123-4567'',
                     linkedin = [], github = [], website = []\<rparr>,
          summary = [], skills = [], experience = [],
          education = [\<lparr>degree = ''BS Computer Science'', school = ''MIT'', year = ''2020'',
                         details = []\<rparr>],
          certifications = [], raw_sections = []\<rparr>"
  by code_simp

text \<open>
  C1 as stated fails: the location that the parser returns for scenario A is not \<open>NYC\<close>.
\<close>

theorem scenario_a_location_counterexample:
  "bind_err (parse scenario_a) (Inr \<circ> location \<circ> contact) \<noteq> Inr ''NYC''"
  by code_simp

section \<open>Properties of the validator\<close>

lemma count_loop_filter: "count_loop hit n xs = n + length (filter hit xs)"
  by (induction xs arbitrary: n) auto

lemma validate_docx:
  "validate cfg (DocxFile st_size doc) =
     (\<not> (\<exists>r \<in> set ([check_file_size st_size, check_fonts doc, check_tables doc,
                          check_images doc, check_sections cfg doc, check_page_length doc]
                         @ check_formatting doc). \<not> passed r \<and> severity r = ''critical''),
      [check_file_size st_size, check_fonts doc, check_tables doc,
       check_images doc, check_sections cfg doc, check_page_length doc] @ check_formatting doc)"
  unfolding validate_def Let_def artifact.case length_0_conv filter_empty_conv
  by blast

lemma not_critical:
  "severity (check_fonts doc) \<noteq> ''critical''"
  "severity (check_sections cfg doc) \<noteq> ''critical''"
  "severity (check_page_length doc) \<noteq> ''critical''"
  "r \<in> set (check_formatting doc) \<Longrightarrow> severity r \<noteq> ''critical''"
  by (auto simp: check_fonts_def check_sections_def check_page_length_def check_formatting_def
      Let_def split: if_splits)

text \<open>
  C3: for an artifact that opens, a document with at least one table gets a failed Tables
  check of critical severity and \<open>is_valid = False\<close>; a document without tables gets a
  passed Tables check of severity info; the Tables check is the third result of the
  report; and \<open>is_valid\<close> holds exactly when no failed result is critical, so an artifact
  whose failed checks are all non-critical is valid.
\<close>

theorem tables_check_decides_validity:
  "(tables doc \<noteq> [] \<longrightarrow>
      check_tables doc = \<lparr>check_name = ''Tables'', passed = False, severity = ''critical''\<rparr> \<and>
      fst (validate cfg (DocxFile st_size doc)) = False) \<and>
   (tables doc = [] \<longrightarrow>
      check_tables doc = \<lparr>check_name = ''Tables'', passed = True, severity = ''info''\<rparr>) \<and>
   snd (validate cfg (DocxFile st_size doc)) ! 2 = check_tables doc \<and>
   (fst (validate cfg (DocxFile st_size doc)) =
      (\<forall>r \<in> set (snd (validate cfg (DocxFile st_size doc))).
         \<not> passed r \<longrightarrow> severity r \<noteq> ''critical''))"
proof -
  have bad: "tables doc \<noteq> [] \<Longrightarrow>
      check_tables doc = \<lparr>check_name = ''Tables'', passed = False, severity = ''critical''\<rparr>"
    by (simp add: check_tables_def)
  have good: "tables doc = [] \<Longrightarrow>
      check_tables doc = \<lparr>check_name = ''Tables'', passed = True, severity = ''info''\<rparr>"
    by (simp add: check_tables_def)
  have third: "snd (validate cfg (DocxFile st_size doc)) ! 2 = check_tables doc"
    by (simp add: validate_docx)
  have valid: "fst (validate cfg (DocxFile st_size doc)) =
      (\<forall>r \<in> set (snd (validate cfg (DocxFile st_size doc))).
         \<not> passed r \<longrightarrow> severity r \<noteq> ''critical'')"
    unfolding validate_docx fst_conv snd_conv by blast
  have invalid: "tables doc \<noteq> [] \<Longrightarrow> fst (validate cfg (DocxFile st_size doc)) = False"
    using bad unfolding validate_docx fst_conv by simp
  from bad good third valid invalid show ?thesis by blast
qed

text \<open>
  The two cases of C3 on a small document with the Experience and Education headings, in
  Calibri, of 512000 bytes: with one table it is not valid, without the table it is.
\<close>

theorem tables_check_decides_validity_witness:
  "tables one_table_doc \<noteq> [] \<and>
   check_tables one_table_doc = \<lparr>check_name = ''Tables'', passed = False, severity = ''critical''\<rparr> \<and>
   fst (validate None (DocxFile 512000 one_table_doc)) = False \<and>
   tables no_table_doc = [] \<and>
   check_tables no_table_doc = \<lparr>check_name = ''Tables'', passed = True, severity = ''info''\<rparr> \<and>
   fst (validate None (DocxFile 512000 no_table_doc)) = True"
proof -
  have t1: "tables one_table_doc \<noteq> []" by (simp add: one_table_doc_def)
  have t0: "tables no_table_doc = []" by (simp add: no_table_doc_def)
  have ok: "\<forall>r \<in> set (snd (validate None (DocxFile 512000 no_table_doc))).
         \<not> passed r \<longrightarrow> severity r \<noteq> ''critical''"
    unfolding validate_docx snd_conv
    using not_critical
    by (auto simp: check_file_size_def check_tables_def check_images_def no_table_doc_def
        one_table_doc_def)
  from t1 t0 ok
    tables_check_decides_validity[of one_table_doc None 512000]
    tables_check_decides_validity[of no_table_doc None 512000]
  show ?thesis by blast
qed

text \<open>
  C7: for a file that does not exist and for a file that does not open as a document,
  \<open>validate\<close> returns \<open>is_valid = False\<close> and a report of exactly one result, failed and
  critical (File Existence, File Format); no result of a content check is in it.
\<close>

theorem unreadable_artifact_single_critical:
  "validate cfg NoFile =
     (False, [\<lparr>check_name = ''File Existence'', passed = False, severity = ''critical''\<rparr>]) \<and>
   validate cfg BadFile =
     (False, [\<lparr>check_name = ''File Format'', passed = False, severity = ''critical''\<rparr>]) \<and>
   length (snd (validate cfg NoFile)) = 1 \<and> length (snd (validate cfg BadFile)) = 1"
  by (simp add: validate_def)

text \<open>
  C9: the formatting check returns the Spacing result first, a failed warning when more
  than 10 paragraphs are empty after stripping and a passed info otherwise, followed by a
  Line Length result, a failed info, exactly when more than 5 paragraphs are longer than
  150 characters; and the report of \<open>validate\<close> for a readable artifact has a Line Length
  result exactly in that case.
\<close>

theorem formatting_results:
  "check_formatting doc =
     (if 10 < length (filter (\<lambda>p. strip (para_text p) = []) (paragraphs doc))
      then \<lparr>check_name = ''Spacing'', passed = False, severity = ''warning''\<rparr>
      else \<lparr>check_name = ''Spacing'', passed = True, severity = ''info''\<rparr>) #
     (if 5 < length (filter (\<lambda>p. 150 < length (para_text p)) (paragraphs doc))
      then [\<lparr>check_name = ''Line Length'', passed = False, severity = ''info''\<rparr>]
      else []) \<and>
   ((\<exists>r \<in> set (snd (validate cfg (DocxFile st_size doc))). check_name r = ''Line Length'') =
      (5 < length (filter (\<lambda>p. 150 < length (para_text p)) (paragraphs doc))))"
proof -
  have fmt: "check_formatting doc =
     (if 10 < length (filter (\<lambda>p. strip (para_text p) = []) (paragraphs doc))
      then \<lparr>check_name = ''Spacing'', passed = False, severity = ''warning''\<rparr>
      else \<lparr>check_name = ''Spacing'', passed = True, severity = ''info''\<rparr>) #
     (if 5 < length (filter (\<lambda>p. 150 < length (para_text p)) (paragraphs doc))
      then [\<lparr>check_name = ''Line Length'', passed = False, severity = ''info''\<rparr>]
      else [])"
    by (simp add: check_formatting_def count_loop_filter)
  have names: "check_name (check_file_size st_size) = ''File Size''"
    "check_name (check_fonts doc) = ''Fonts''"
    "check_name (check_tables doc) = ''Tables''"
    "check_name (check_images doc) = ''Images''"
    "check_name (check_sections cfg doc) = ''Sections''"
    "check_name (check_page_length doc) = ''Length''"
    by (simp_all add: check_file_size_def check_fonts_def check_tables_def check_images_def
        check_sections_def check_page_length_def Let_def)
  have "(\<exists>r \<in> set (snd (validate cfg (DocxFile st_size doc))). check_name r = ''Line Length'') =
      (5 < length (filter (\<lambda>p. 150 < length (para_text p)) (paragraphs doc)))"
    unfolding validate_docx snd_conv fmt using names by simp
  with fmt show ?thesis by simp
qed

text \<open>
  C10: the estimated page count is at least \<open>MIN_PAGES\<close>, so the Length result is a passed
  info when the estimate is at most \<open>MAX_PAGES\<close> and a failed warning otherwise, and it is
  never the failed info of the branch for a document that is too short.
\<close>

theorem length_check_never_too_short:
  "MIN_PAGES \<le> estimated_pages doc \<and>
   check_page_length doc =
     (if estimated_pages doc \<le> MAX_PAGES
      then \<lparr>check_name = ''Length'', passed = True, severity = ''info''\<rparr>
      else \<lparr>check_name = ''Length'', passed = False, severity = ''warning''\<rparr>) \<and>
   check_page_length doc \<noteq> \<lparr>check_name = ''Length'', passed = False, severity = ''info''\<rparr>"
proof -
  have "MIN_PAGES \<le> estimated_pages doc"
    by (simp add: MIN_PAGES_def estimated_pages_def)
  then show ?thesis
    by (simp add: check_page_length_def)
qed

section \<open>Properties of the experience parser\<close>

lemma py_split_nonempty: "py_split sep s \<noteq> []"
  by (induction s) (auto split: list.splits)

lemma re_match_None_iff: "(re_match r s = None) = (rx_run r (s, []) = [])"
  by (simp add: re_match_def split: list.splits)

lemma re_search_Some_iff:
  "(re_search r s \<noteq> None) = (\<exists>ys zs. s = ys @ zs \<and> rx_run r (zs, []) \<noteq> [])"
proof (induction s)
  case Nil
  then show ?case using re_match_None_iff[of r "[]"] by simp
next
  case (Cons c t)
  have "(\<exists>ys zs. c # t = ys @ zs \<and> rx_run r (zs, []) \<noteq> []) =
        (rx_run r (c # t, []) \<noteq> [] \<or> (\<exists>ys zs. t = ys @ zs \<and> rx_run r (zs, []) \<noteq> []))"
    (is "?L = ?R")
  proof
    assume ?L
    then obtain ys zs where s: "c # t = ys @ zs" and m: "rx_run r (zs, []) \<noteq> []" by blast
    show ?R
    proof (cases ys)
      case Nil
      with s m show ?thesis by simp
    next
      case (Cons y ys')
      with s have "t = ys' @ zs" by simp
      with m show ?thesis by blast
    qed
  next
    assume ?R
    then show ?L
    proof
      assume "rx_run r (c # t, []) \<noteq> []"
      then have "c # t = [] @ (c # t) \<and> rx_run r (c # t, []) \<noteq> []" by simp
      then show ?L by blast
    next
      assume "\<exists>ys zs. t = ys @ zs \<and> rx_run r (zs, []) \<noteq> []"
      then obtain ys zs where "t = ys @ zs" "rx_run r (zs, []) \<noteq> []" by blast
      then have "c # t = (c # ys) @ zs \<and> rx_run r (zs, []) \<noteq> []" by simp
      then show ?L by blast
    qed
  qed
  moreover have "(re_search r (c # t) \<noteq> None) =
      (rx_run r (c # t, []) \<noteq> [] \<or> re_search r t \<noteq> None)"
    using re_match_None_iff[of r "c # t"] by (cases "re_match r (c # t)") auto
  ultimately show ?case using Cons.IH by simp
qed

lemma rx_run_Lit:
  "rx_run (Lit w) (zs, c) = (if prefix w zs then [(drop (length w) zs, c)] else [])"
proof (induction w arbitrary: zs)
  case Nil
  then show ?case by simp
next
  case (Cons x w)
  show ?case
  proof (cases zs)
    case Nil
    then show ?thesis by (simp add: rx_atom_def)
  next
    case (Cons z t)
    with Cons.IH[of t] show ?thesis by (simp add: rx_atom_def)
  qed
qed

lemma rx_run_Rep_Cls:
  "rx_run (Rep n (Cls is)) (zs, c) =
     (if n \<le> length zs \<and> list_all (atom_ok (Cls is)) (take n zs) then [(drop n zs, c)] else [])"
proof (induction n arbitrary: zs)
  case 0
  then show ?case by simp
next
  case (Suc n)
  show ?case
  proof (cases zs)
    case Nil
    then show ?thesis by (simp add: rx_atom_def)
  next
    case (Cons z t)
    with Suc.IH[of t] show ?thesis by (simp add: rx_atom_def)
  qed
qed

lemma rx_run_month:
  "(rx_run (month_rx u l w) (zs, c) \<noteq> []) = (prefix (u # w) zs \<or> prefix (l # w) zs)"
  by (cases zs) (auto simp: month_rx_def rx_atom_def rx_run_Lit)

lemma rx_run_dates:
  "(rx_run dates_rx (zs, c) \<noteq> []) =
     ((\<exists>d. digits4 d \<and> prefix d zs) \<or> (\<exists>m \<in> set month_spellings. prefix m zs))"
proof -
  have d: "(rx_run (Rep 4 rx_digit) (zs, c) \<noteq> []) = (\<exists>d. digits4 d \<and> prefix d zs)"
  proof
    assume "rx_run (Rep 4 rx_digit) (zs, c) \<noteq> []"
    then have "4 \<le> length zs \<and> list_all is_digit (take 4 zs)"
      by (simp add: rx_digit_def rx_run_Rep_Cls list_all_iff split: if_splits)
    then have "digits4 (take 4 zs) \<and> prefix (take 4 zs) zs"
      by (simp add: digits4_def take_is_prefix)
    then show "\<exists>d. digits4 d \<and> prefix d zs" by blast
  next
    assume "\<exists>d. digits4 d \<and> prefix d zs"
    then obtain d r where "digits4 d" "zs = d @ r" by (auto simp: prefix_def)
    then show "rx_run (Rep 4 rx_digit) (zs, c) \<noteq> []"
      by (simp add: rx_digit_def rx_run_Rep_Cls list_all_iff digits4_def)
  qed
  have "(rx_run dates_rx (zs, c) \<noteq> []) =
     (rx_run (Rep 4 rx_digit) (zs, c) \<noteq> [] \<or> (\<exists>m \<in> set month_spellings. prefix m zs))"
    unfolding dates_rx_def Alts.simps rx_run.simps append_is_Nil_conv de_Morgan_conj
      rx_run_month month_spellings_def
    by (simp only: list.set bex_simps insert_iff empty_iff) blast
  with d show ?thesis by simp
qed

lemma dates_rx_search: "(re_search dates_rx s \<noteq> None) = contains_year_or_spelling s"
proof -
  have "(\<exists>ys zs. s = ys @ zs \<and> ((\<exists>d. digits4 d \<and> prefix d zs) \<or>
            (\<exists>m \<in> set month_spellings. prefix m zs))) = contains_year_or_spelling s"
    unfolding contains_year_or_spelling_def sublist_def prefix_def by blast
  then show ?thesis
    by (simp only: re_search_Some_iff rx_run_dates)
qed

lemma bind_err_Inr [simp]: "bind_err (Inr v) f = f v"
  by (simp add: bind_err_def)

lemma bind_err_Inl [simp]: "bind_err (Inl e) f = Inl e"
  by (simp add: bind_err_def)

lemma py_index_in_range: "i < length xs \<Longrightarrow> py_index xs i = Inr (xs ! i)"
  by (simp add: py_index_def)

lemma parse_job_header_eq:
  "parse_job_header header_line =
     (let parts = map strip (py_split CHR ''|'' header_line) in
      Inr \<lparr>title = parts ! 0,
           company = (if 2 \<le> length parts then parts ! 1 else []),
           job_location = (if 3 \<le> length parts \<and> \<not> contains_year_or_spelling (parts ! 2)
                           then parts ! 2 else []),
           dates = (if 4 \<le> length parts then parts ! 3
                    else if 3 \<le> length parts \<and> contains_year_or_spelling (parts ! 2)
                    then parts ! 2 else []),
           description = [], achievements = []\<rparr>)"
proof -
  define parts where "parts = map strip (py_split CHR ''|'' header_line)"
  have ne: "1 \<le> length parts"
    using py_split_nonempty[of "CHR ''|''" header_line]
    by (cases "py_split CHR ''|'' header_line") (simp_all add: parts_def)
  have d: "(\<exists>y. re_search dates_rx (parts ! 2) = Some y) = contains_year_or_spelling (parts ! 2)"
    using dates_rx_search[of "parts ! 2"] by simp
  show ?thesis
    unfolding parse_job_header_def Let_def parts_def[symmetric]
    using ne by (auto simp: py_index_def d)
qed

text \<open>
  C6 as stated fails: the third segment \<open>JUNE - AUGUST\<close> names a month, and it becomes the
  location, with the dates left empty.
\<close>

theorem capitals_month_counterexample:
  "names_a_month ''JUNE - AUGUST'' \<and>
   parse_job_header capitals_header =
     Inr \<lparr>title = ''Engineer'', company = ''Acme'', job_location = ''JUNE - AUGUST'',
          dates = [], description = [], achievements = []\<rparr>"
  by code_simp

text \<open>
  C6, as the code has it: the header of a job, split at the bars and stripped, always has
  a first segment, which is the title; the second segment, when there is one, is the
  company; the third is the dates when it contains four digits in a row or one of the
  spellings of a month abbreviation that the pattern lists, first letter in either case
  and the rest in lower case (which is what the search for \<open>dates_rx\<close> decides), and the
  location otherwise; a fourth segment is the dates, whatever the third one was; every
  field without a segment is the empty string. A line of the experience section that
  starts with \<open>###\<close> makes the job parsed from the rest of the line the current job, after
  the previous job is appended.
\<close>

theorem job_header_segments:
  "1 \<le> length (map strip (py_split CHR ''|'' header_line)) \<and>
   parse_job_header header_line =
     (let parts = map strip (py_split CHR ''|'' header_line) in
      Inr \<lparr>title = parts ! 0,
           company = (if 2 \<le> length parts then parts ! 1 else []),
           job_location = (if 3 \<le> length parts \<and> \<not> contains_year_or_spelling (parts ! 2)
                           then parts ! 2 else []),
           dates = (if 4 \<le> length parts then parts ! 3
                    else if 3 \<le> length parts \<and> contains_year_or_spelling (parts ! 2)
                    then parts ! 2 else []),
           description = [], achievements = []\<rparr>) \<and>
   (re_search dates_rx s \<noteq> None) = contains_year_or_spelling s \<and>
   (startswith (strip line) ''### '' \<longrightarrow>
      (\<exists>j. parse_job_header (drop 4 (strip line)) = Inr j \<and>
           experience_line (experiences, current_job) line =
             Inr (case current_job of None \<Rightarrow> experiences | Some c \<Rightarrow> experiences @ [c],
                  Some j)))"
proof -
  have ne: "1 \<le> length (map strip (py_split CHR ''|'' header_line))"
    using py_split_nonempty[of "CHR ''|''" header_line]
    by (cases "py_split CHR ''|'' header_line") simp_all
  have step: "startswith (strip line) ''### '' \<longrightarrow>
      (\<exists>j. parse_job_header (drop 4 (strip line)) = Inr j \<and>
           experience_line (experiences, current_job) line =
             Inr (case current_job of None \<Rightarrow> experiences | Some c \<Rightarrow> experiences @ [c],
                  Some j))"
  proof
    assume h: "startswith (strip line) ''### ''"
    obtain j where j: "parse_job_header (drop 4 (strip line)) = Inr j"
      and a: "achievements j = []"
      by (simp add: parse_job_header_eq Let_def)
    from a have "j\<lparr>achievements := []\<rparr> = j" by simp
    with h j have "experience_line (experiences, current_job) line =
             Inr (case current_job of None \<Rightarrow> experiences | Some c \<Rightarrow> experiences @ [c],
                  Some j)"
      by (simp add: experience_line_def Let_def)
    with j show "\<exists>j. parse_job_header (drop 4 (strip line)) = Inr j \<and>
           experience_line (experiences, current_job) line =
             Inr (case current_job of None \<Rightarrow> experiences | Some c \<Rightarrow> experiences @ [c],
                  Some j)"
      by blast
  qed
  from ne parse_job_header_eq[of header_line] dates_rx_search[of s] step
  show ?thesis by blast
qed

text \<open>
  C6 on a heading line with four segments.
\<close>

theorem job_header_segments_witness:
  "startswith (strip job_line_example) ''### '' \<and>
   experience_line ([], None) job_line_example =
     Inr ([], Some \<lparr>title = ''Engineer'', company = ''Acme'', job_location = ''Remote'',
                     dates = ''Jan 2020 - Mar 2021'', description = [], achievements = []\<rparr>)"
proof -
  have s: "startswith (strip job_line_example) ''### ''"
    by code_simp
  have h: "parse_job_header (drop 4 (strip job_line_example)) =
     Inr \<lparr>title = ''Engineer'', company = ''Acme'', job_location = ''Remote'',
          dates = ''Jan 2020 - Mar 2021'', description = [], achievements = []\<rparr>"
    by code_simp
  from job_header_segments[of "[]" "[]" job_line_example "[]" None]
  have "startswith (strip job_line_example) ''### '' \<longrightarrow>
      (\<exists>j. parse_job_header (drop 4 (strip job_line_example)) = Inr j \<and>
           experience_line ([], None) job_line_example = Inr ([], Some j))"
    by simp
  with s obtain j where "parse_job_header (drop 4 (strip job_line_example)) = Inr j"
    and "experience_line ([], None) job_line_example = Inr ([], Some j)"
    by blast
  with h s show ?thesis by simp
qed

section \<open>The parser never raises\<close>

lemma rx_run_groups:
  "q \<in> set (rx_run r p) \<Longrightarrow> k \<in> fst ` set (snd p) \<union> rx_groups r \<Longrightarrow> k \<in> fst ` set (snd q)"
proof (induction r p arbitrary: q rule: rx_run.induct)
  case (1 p)
  then show ?case by simp
next
  case (2 d p)
  then show ?case by (auto simp: rx_atom_def split: list.splits if_splits)
next
  case (3 "is" p)
  then show ?case by (auto simp: rx_atom_def split: list.splits if_splits)
next
  case (4 "is" p)
  then show ?case by (auto simp: rx_atom_def split: list.splits if_splits)
next
  case (5 p)
  then show ?case by (auto simp: rx_atom_def split: list.splits if_splits)
next
  case (6 a b p)
  from "6.prems"(1) obtain m where m: "m \<in> set (rx_run a p)" and q: "q \<in> set (rx_run b m)"
    by auto
  from "6.prems"(2) have "k \<in> fst ` set (snd p) \<union> rx_groups a \<or> k \<in> rx_groups b"
    by auto
  then show ?case
  proof
    assume "k \<in> fst ` set (snd p) \<union> rx_groups a"
    then have "k \<in> fst ` set (snd m)" by (rule "6.IH"(1)[OF m])
    then have "k \<in> fst ` set (snd m) \<union> rx_groups b" by simp
    then show ?thesis by (rule "6.IH"(2)[OF m q])
  next
    assume "k \<in> rx_groups b"
    then have "k \<in> fst ` set (snd m) \<union> rx_groups b" by simp
    then show ?thesis by (rule "6.IH"(2)[OF m q])
  qed
next
  case (7 a b p)
  from "7.prems"(1) have "q \<in> set (rx_run a p) \<or> q \<in> set (rx_run b p)" by simp
  then show ?case
  proof
    assume q: "q \<in> set (rx_run a p)"
    from "7.prems"(2) have "k \<in> fst ` set (snd p) \<union> rx_groups a" by auto
    then show ?thesis by (rule "7.IH"(1)[OF q])
  next
    assume q: "q \<in> set (rx_run b p)"
    from "7.prems"(2) have "k \<in> fst ` set (snd p) \<union> rx_groups b" by auto
    then show ?thesis by (rule "7.IH"(2)[OF q])
  qed
next
  case (8 a p)
  from "8.prems"(1) have "q \<in> set (rx_run a p) \<or> q = p" by auto
  then show ?case
  proof
    assume q: "q \<in> set (rx_run a p)"
    from "8.prems"(2) have "k \<in> fst ` set (snd p) \<union> rx_groups a" by simp
    then show ?thesis by (rule "8.IH"[OF q])
  next
    assume "q = p"
    with "8.prems"(2) show ?thesis by simp
  qed
next
  case (9 a p)
  from "9.prems"(2) have kp: "k \<in> fst ` set (snd p)" by simp
  show ?case
  proof (cases "q = p")
    case True
    with kp show ?thesis by simp
  next
    case False
    have "rx_run (Star a) p =
        concat (map (\<lambda>q. if length (fst q) < length (fst p) then rx_run (Star a) q else [])
                 (rx_run a p)) @ [p]"
      by (rule rx_run.simps)
    with "9.prems"(1) False obtain m where m: "m \<in> set (rx_run a p)"
      and lt: "length (fst m) < length (fst p)" and q: "q \<in> set (rx_run (Star a) m)"
      by (auto split: if_splits)
    from kp have "k \<in> fst ` set (snd p) \<union> rx_groups a" by simp
    then have "k \<in> fst ` set (snd m)" by (rule "9.IH"(1)[OF m])
    then have "k \<in> fst ` set (snd m) \<union> rx_groups (Star a)" by simp
    then show ?thesis by (rule "9.IH"(2)[OF m lt q])
  qed
next
  case (10 j a p)
  from "10.prems"(1) obtain m where m: "m \<in> set (rx_run a p)"
    and q: "snd q = (j, take (length (fst p) - length (fst m)) (fst p)) # snd m"
    by auto
  show ?case
  proof (cases "k = j")
    case True
    with q show ?thesis by simp
  next
    case False
    with "10.prems"(2) have "k \<in> fst ` set (snd p) \<union> rx_groups a" by simp
    then have "k \<in> fst ` set (snd m)" by (rule "10.IH"[OF m])
    with q show ?thesis by simp
  qed
qed

lemma re_match_group: "re_match r s = Some m \<Longrightarrow> k \<in> rx_groups r \<Longrightarrow> \<exists>g. match_group m k = Some g"
proof -
  assume a: "re_match r s = Some m" and k: "k \<in> rx_groups r"
  from a obtain q qs where q: "rx_run r (s, []) = q # qs" and m: "groups m = snd q"
    by (auto simp: re_match_def split: list.splits)
  from q have "q \<in> set (rx_run r (s, []))" by simp
  moreover from k have "k \<in> fst ` set (snd (s, [])) \<union> rx_groups r" by simp
  ultimately have "k \<in> fst ` set (snd q)" by (rule rx_run_groups)
  with m have "map_of (groups m) k \<noteq> None" by (simp add: map_of_eq_None_iff)
  then show ?thesis by (auto simp: match_group_def)
qed

lemma re_search_group: "re_search r s = Some m \<Longrightarrow> k \<in> rx_groups r \<Longrightarrow> \<exists>g. match_group m k = Some g"
proof (induction s arbitrary: m)
  case Nil
  then have "re_match r [] = Some m" by simp
  then show ?case using Nil.prems(2) by (rule re_match_group)
next
  case (Cons c t)
  show ?case
  proof (cases "re_match r (c # t)")
    case None
    with Cons.prems(1) obtain m' where m': "re_search r t = Some m'" and m: "m = m'\<lparr>pre := c # pre m'\<rparr>"
      by auto
    from Cons.IH[OF m' Cons.prems(2)] m show ?thesis by (simp add: match_group_def)
  next
    case (Some m')
    with Cons.prems(1) have "re_match r (c # t) = Some m" by simp
    then show ?thesis using Cons.prems(2) by (rule re_match_group)
  qed
qed

lemma group_str_total: "match_group m k = Some g \<Longrightarrow> group_str m k = Inr g"
  by (simp add: group_str_def)

lemma pattern_groups:
  "1 \<in> rx_groups linkedin_rx" "1 \<in> rx_groups github_rx"
  "1 \<in> rx_groups skills_rx" "2 \<in> rx_groups skills_rx" "1 \<in> rx_groups degree_rx"
  by (simp_all add: linkedin_rx_def github_rx_def skills_rx_def degree_rx_def Seq_def Plus_def)

lemma fold_err_total:
  "(\<And>s x. \<exists>s'. f s x = Inr s') \<Longrightarrow> \<exists>s'. fold_err f s xs = Inr s'"
proof (induction xs arbitrary: s)
  case Nil
  then show ?case by simp
next
  case (Cons x xs)
  from Cons.prems obtain s1 where "f s x = Inr s1" by blast
  moreover from Cons.IH[OF Cons.prems] obtain s2 where "fold_err f s1 xs = Inr s2" by blast
  ultimately show ?case by simp
qed

lemma extract_location_total: "\<exists>loc. extract_location cl = Inr loc"
proof (induction cl)
  case Nil
  then show ?case by simp
next
  case (Cons l ls)
  have "py_index (py_split CHR ''|'' (strip l)) 0 = Inr (py_split CHR ''|'' (strip l) ! 0)"
    using py_split_nonempty[of "CHR ''|''" "strip l"] by (simp add: py_index_def)
  with Cons.IH show ?case by (auto simp: Let_def)
qed

lemma extract_contact_total: "\<exists>c. extract_contact lines = Inr c"
proof -
  define t where "t = py_join '' '' (contact_lines False lines)"
  obtain loc where loc: "extract_location (contact_lines False lines) = Inr loc"
    using extract_location_total by blast
  have l: "\<exists>g. group_str m 1 = Inr g" if "re_search linkedin_rx t = Some m" for m
    using re_search_group[OF that pattern_groups(1)] by (auto simp: group_str_total)
  have g: "\<exists>g. group_str m 1 = Inr g" if "re_search github_rx t = Some m" for m
    using re_search_group[OF that pattern_groups(2)] by (auto simp: group_str_total)
  show ?thesis
  proof (cases "re_search linkedin_rx t")
    case None
    show ?thesis
    proof (cases "re_search github_rx t")
      case None
      with \<open>re_search linkedin_rx t = None\<close> show ?thesis
        by (simp add: extract_contact_def Let_def t_def[symmetric] loc)
    next
      case (Some m)
      from g[OF Some] obtain v where "group_str m 1 = Inr v" by blast
      with Some \<open>re_search linkedin_rx t = None\<close> show ?thesis
        by (simp add: extract_contact_def Let_def t_def[symmetric] loc)
    qed
  next
    case (Some ml)
    from l[OF Some] obtain u where u: "group_str ml 1 = Inr u" by blast
    show ?thesis
    proof (cases "re_search github_rx t")
      case None
      with Some u show ?thesis
        by (simp add: extract_contact_def Let_def t_def[symmetric] loc)
    next
      case (Some m)
      from g[OF Some] obtain v where "group_str m 1 = Inr v" by blast
      with Some \<open>re_search linkedin_rx t = Some ml\<close> u show ?thesis
        by (simp add: extract_contact_def Let_def t_def[symmetric] loc)
    qed
  qed
qed

lemma dict_get_present: "k \<in> set (map fst d) \<Longrightarrow> \<exists>v. dict_get d k = Inr v"
proof -
  assume "k \<in> set (map fst d)"
  then have "map_of d k \<noteq> None" by (simp add: map_of_eq_None_iff)
  then show ?thesis by (auto simp: dict_get_def)
qed

lemma dict_get_update: "dict_get (AList.update k v d) k = Inr v"
  by (simp add: dict_get_def update_conv')

lemma skills_line_total: "\<exists>st'. skills_line st raw = Inr st'"
proof -
  obtain sk cur where st: "st = (sk, cur)" by (cases st)
  define line where "line = strip raw"
  have bold: "\<exists>st'. (case re_match skills_rx line of
           None \<Rightarrow> Inr (sk, cur)
         | Some m \<Rightarrow>
             bind_err (group_str m 1) (\<lambda>g1.
             bind_err (group_str m 2) (\<lambda>g2.
                Inr (AList.update (strip g1) (map strip (py_split CHR '','' (strip g2))) sk,
                     cur)))) = Inr st'"
  proof (cases "re_match skills_rx line")
    case None
    then show ?thesis by simp
  next
    case (Some m)
    from re_match_group[OF Some pattern_groups(3)] obtain g1 where "match_group m 1 = Some g1" by blast
    moreover from re_match_group[OF Some pattern_groups(4)] obtain g2 where "match_group m 2 = Some g2"
      by blast
    ultimately show ?thesis using Some by (simp add: group_str_total)
  qed
  have plain: "\<exists>v. dict_get (if cur \<notin> set (map fst sk) then AList.update cur [] sk else sk) cur = Inr v"
    using dict_get_present[of cur sk] by (auto simp: dict_get_update)
  show ?thesis
    unfolding skills_line_def st fst_conv snd_conv Let_def line_def[symmetric]
    using bold plain by (cases "cur \<in> set (map fst sk)") auto
qed

lemma parse_skills_total: "\<exists>v. parse_skills content = Inr v"
proof -
  from fold_err_total[of skills_line, OF skills_line_total]
  obtain st where "fold_err skills_line ([], ''General'') (py_split nl content) = Inr st"
    by blast
  then show ?thesis by (simp add: parse_skills_def)
qed

lemma parse_job_header_total: "\<exists>j. parse_job_header h = Inr j"
  by (simp add: parse_job_header_eq Let_def)

lemma experience_line_total: "\<exists>st'. experience_line st line = Inr st'"
proof -
  from parse_job_header_total obtain j where "parse_job_header (drop 4 (strip line)) = Inr j"
    by blast
  then show ?thesis
    by (cases st; cases "snd st") (auto simp: experience_line_def Let_def)
qed

lemma parse_experience_total: "\<exists>v. parse_experience content = Inr v"
proof -
  from fold_err_total[of experience_line, OF experience_line_total]
  obtain st where "fold_err experience_line ([], None) (py_split nl content) = Inr st"
    by blast
  then show ?thesis by (simp add: parse_experience_def)
qed

lemma edu_header_total: "re_match degree_rx line = Some m \<Longrightarrow> \<exists>e. edu_header m = Inr e"
proof -
  assume m: "re_match degree_rx line = Some m"
  from re_match_group[OF m pattern_groups(5)] obtain g1 where "match_group m 1 = Some g1" by blast
  then have g: "group_str m 1 = Inr g1" by (rule group_str_total)
  show ?thesis
    unfolding edu_header_def g bind_err_Inr Let_def
    by (auto simp: py_index_def split: option.splits)
qed

lemma education_line_total: "\<exists>st'. education_line st raw = Inr st'"
proof -
  obtain ed cur sh where st: "st = (ed, cur, sh)" by (cases st)
  show ?thesis
  proof (cases "re_match degree_rx (strip raw)")
    case None
    then show ?thesis
      unfolding st by (cases cur) (auto simp: education_line_def Let_def)
  next
    case (Some m)
    from edu_header_total[OF Some] obtain e where "edu_header m = Inr e" by blast
    with Some show ?thesis
      unfolding st by (cases cur) (auto simp: education_line_def Let_def)
  qed
qed

lemma parse_education_total: "\<exists>v. parse_education content = Inr v"
proof -
  from fold_err_total[of education_line, OF education_line_total]
  obtain st where "fold_err education_line ([], None, 0) (py_split nl content) = Inr st"
    by blast
  then show ?thesis by (simp add: parse_education_def)
qed

lemma parse_section_total: "\<exists>d. parse_section data sec = Inr d"
proof -
  obtain a where "parse_skills (snd sec) = Inr a" using parse_skills_total by blast
  moreover obtain b where "parse_experience (snd sec) = Inr b" using parse_experience_total by blast
  moreover obtain c where "parse_education (snd sec) = Inr c" using parse_education_total by blast
  ultimately show ?thesis by (simp add: parse_section_def Let_def)
qed

lemma parse_total: "\<exists>d. parse content = Inr d"
proof -
  obtain c where "extract_contact (py_split nl content) = Inr c"
    using extract_contact_total by blast
  moreover from fold_err_total[of parse_section, OF parse_section_total]
  have "\<exists>d. fold_err parse_section (empty_data\<lparr>name := extract_name (py_split nl content),
      contact := c\<rparr>) (split_into_sections (py_split nl content)) = Inr d" .
  ultimately show ?thesis by (simp add: parse_def Let_def)
qed

lemma py_split_chars: "l \<in> set (py_split sep s) \<Longrightarrow> set l \<subseteq> set s"
proof (induction s arbitrary: l)
  case Nil
  then show ?case by simp
next
  case (Cons c cs)
  show ?case
  proof (cases "c = sep")
    case True
    with Cons.prems have "l = [] \<or> l \<in> set (py_split sep cs)" by simp
    with Cons.IH show ?thesis by auto
  next
    case False
    obtain p ps where ps: "py_split sep cs = p # ps"
      using py_split_nonempty[of sep cs] by (cases "py_split sep cs") auto
    with False Cons.prems have "l = c # p \<or> l \<in> set ps" by simp
    moreover have "set p \<subseteq> set cs" using Cons.IH[of p] ps by simp
    moreover have "l \<in> set ps \<Longrightarrow> set l \<subseteq> set cs" using Cons.IH[of l] ps by simp
    ultimately show ?thesis by auto
  qed
qed

lemma strip_chars_subset: "set (strip l) \<subseteq> set l"
proof -
  have "set (strip l) \<subseteq> set (dropWhile is_space l)"
    unfolding strip_def using set_dropWhileD[of _ is_space "rev (dropWhile is_space l)"] by auto
  also have "\<dots> \<subseteq> set l"
    using set_dropWhileD[of _ is_space l] by auto
  finally show ?thesis .
qed

lemma startswith_head: "startswith l (c # p) \<Longrightarrow> c \<in> set l"
proof -
  assume "startswith l (c # p)"
  then have "take (Suc (length p)) l = c # p" by (simp add: startswith_def)
  then have "c \<in> set (take (Suc (length p)) l)" by simp
  then show ?thesis by (rule in_set_takeD)
qed

lemma no_hash_line:
  assumes "CHR ''#'' \<notin> set l"
  shows "\<not> startswith (strip l) ''# ''" "\<not> startswith (strip l) ''## ''" "\<not> startswith l ''## ''"
  using assms startswith_head[of "strip l" "CHR ''#''"] startswith_head[of l "CHR ''#''"]
    strip_chars_subset[of l] by auto

lemma extract_name_default:
  "\<forall>l \<in> set ls. CHR ''#'' \<notin> set l \<Longrightarrow> extract_name ls = ''Resume''"
  by (induction ls) (simp_all add: no_hash_line Let_def)

lemma contact_lines_none:
  "\<forall>l \<in> set ls. CHR ''#'' \<notin> set l \<Longrightarrow> contact_lines False ls = []"
  by (induction ls) (simp_all add: no_hash_line Let_def)

lemma sections_loop_none:
  "\<forall>l \<in> set ls. CHR ''#'' \<notin> set l \<Longrightarrow> sections_loop [] None [] ls = []"
  by (induction ls) (simp_all add: no_hash_line section_open_def save_section_def)

lemma extract_contact_empty:
  "contact_lines False ls = [] \<Longrightarrow>
   extract_contact ls =
     Inr \<lparr>location = [], email = [], phone = [], linkedin = [], github = [], website = []\<rparr>"
proof -
  assume e: "contact_lines False ls = []"
  have "re_search email_rx [] = None" "re_search phone_rx [] = None"
    "re_search linkedin_rx [] = None" "re_search github_rx [] = None"
    by code_simp+
  with e show ?thesis by (simp add: extract_contact_def)
qed

lemma parse_no_hash:
  assumes "CHR ''#'' \<notin> set content"
  shows "parse content = Inr (empty_data\<lparr>name := ''Resume''\<rparr>)"
proof -
  have l: "\<forall>l \<in> set (py_split nl content). CHR ''#'' \<notin> set l"
    using assms py_split_chars[of _ nl content] by auto
  have c: "contact (empty_data\<lparr>name := ''Resume''\<rparr>) =
      \<lparr>location = [], email = [], phone = [], linkedin = [], github = [], website = []\<rparr>"
    by (simp add: empty_data_def)
  show ?thesis
    unfolding parse_def Let_def extract_name_default[OF l]
      extract_contact_empty[OF contact_lines_none[OF l]] split_into_sections_def
      sections_loop_none[OF l]
    by (simp add: empty_data_def)
qed

text \<open>
  C4 as stated fails: a file that exists and does not decode makes the parser fail, and
  not with the condition for a missing source.
\<close>

theorem existing_file_fails_counterexample:
  "undecodable_file ''resume.md'' \<noteq> None \<and>
   parse_resume undecodable_file ''resume.md'' = Inl UnicodeDecodeError"
  by (simp add: undecodable_file_def parse_resume_def read_file_def bind_err_def)

text \<open>
  C4, as the code has it: \<open>parse_resume\<close> fails with \<open>FileNotFoundError\<close> exactly when the path
  does not exist; it fails at all exactly when the path does not name a file with a text
  that can be read, and then with \<open>FileNotFoundError\<close>, \<open>IsADirectoryError\<close>, \<open>PermissionError\<close>
  or \<open>UnicodeDecodeError\<close>; for a file with a text it returns what \<open>parse\<close> returns for the
  text; \<open>parse\<close> returns a document for every text: no index, key or group that it reads
  is ever missing; and a text without any heading marker parses to the defaults, the name
  \<open>Resume\<close> and every other field empty.
\<close>

theorem parser_fails_only_on_unread_file:
  "((parse_resume fs markdown_path = Inl FileNotFoundError) = (fs markdown_path = None)) \<and>
   ((\<exists>e. parse_resume fs markdown_path = Inl e) =
      (\<not> (\<exists>t. fs markdown_path = Some (TextFile t)))) \<and>
   (parse_resume fs markdown_path = Inl e \<longrightarrow>
      e = FileNotFoundError \<or> e = IsADirectoryError \<or> e = PermissionError \<or>
      e = UnicodeDecodeError) \<and>
   (fs markdown_path = Some (TextFile content) \<longrightarrow>
      parse_resume fs markdown_path = parse content) \<and>
   (\<exists>d. parse content = Inr d) \<and>
   (CHR ''#'' \<notin> set content \<longrightarrow> parse content = Inr (empty_data\<lparr>name := ''Resume''\<rparr>))"
proof -
  from parse_total obtain d where d: "parse content = Inr d" by blast
  have text_file: "parse_resume fs markdown_path = parse t" if "fs markdown_path = Some (TextFile t)" for t
    using that by (simp add: parse_resume_def read_file_def)
  have a: "(parse_resume fs markdown_path = Inl FileNotFoundError) = (fs markdown_path = None)"
  proof (cases "fs markdown_path")
    case None
    then show ?thesis by (simp add: parse_resume_def read_file_def)
  next
    case (Some x)
    show ?thesis
    proof (cases x)
      case (TextFile t)
      from parse_total obtain d' where "parse t = Inr d'" by blast
      with Some TextFile text_file[of t] show ?thesis by simp
    qed (use Some in \<open>simp_all add: parse_resume_def read_file_def\<close>)
  qed
  have b: "(\<exists>e. parse_resume fs markdown_path = Inl e) =
      (\<not> (\<exists>t. fs markdown_path = Some (TextFile t)))"
  proof (cases "fs markdown_path")
    case None
    then show ?thesis by (simp add: parse_resume_def read_file_def)
  next
    case (Some x)
    show ?thesis
    proof (cases x)
      case (TextFile t)
      from parse_total obtain d' where "parse t = Inr d'" by blast
      with Some TextFile text_file[of t] show ?thesis by simp
    qed (use Some in \<open>simp_all add: parse_resume_def read_file_def\<close>)
  qed
  have c: "parse_resume fs markdown_path = Inl e \<longrightarrow>
      e = FileNotFoundError \<or> e = IsADirectoryError \<or> e = PermissionError \<or>
      e = UnicodeDecodeError"
  proof (cases "fs markdown_path")
    case None
    then show ?thesis by (auto simp: parse_resume_def read_file_def)
  next
    case (Some x)
    show ?thesis
    proof (cases x)
      case (TextFile t)
      from parse_total obtain d' where "parse t = Inr d'" by blast
      with Some TextFile text_file[of t] show ?thesis by simp
    qed (use Some in \<open>auto simp: parse_resume_def read_file_def\<close>)
  qed
  have f: "fs markdown_path = Some (TextFile content) \<longrightarrow>
      parse_resume fs markdown_path = parse content"
    using text_file[of content] by (rule impI)
  have g: "CHR ''#'' \<notin> set content \<longrightarrow> parse content = Inr (empty_data\<lparr>name := ''Resume''\<rparr>)"
    using parse_no_hash[of content] by (rule impI)
  have h: "\<exists>d. parse content = Inr d" by (rule parse_total)
  from a b c f h g show ?thesis by (intro conjI)
qed

text \<open>
  C4 on the file system with one file: the file that is there parses, the path that is not
  there fails with \<open>FileNotFoundError\<close>, and a text without headings gives the defaults.
\<close>

theorem parser_fails_only_on_unread_file_witness:
  "one_file ''resume.md'' = Some (TextFile scenario_a) \<and>
   parse_resume one_file ''resume.md'' = parse scenario_a \<and>
   one_file ''other.md'' = None \<and>
   parse_resume one_file ''other.md'' = Inl FileNotFoundError \<and>
   CHR ''#'' \<notin> set ''Jane Doe, engineer'' \<and>
   parse ''Jane Doe, engineer'' = Inr (empty_data\<lparr>name := ''Resume''\<rparr>)"
proof -
  have s: "one_file ''resume.md'' = Some (TextFile scenario_a)" by (simp add: one_file_def)
  have n: "one_file ''other.md'' = None" by (simp add: one_file_def)
  have h: "CHR ''#'' \<notin> set ''Jane Doe, engineer''" by simp
  note w1 = parser_fails_only_on_unread_file[of one_file "''resume.md''" FileNotFoundError scenario_a]
  note w2 = parser_fails_only_on_unread_file[of one_file "''other.md''" FileNotFoundError
      "''Jane Doe, engineer''"]
  have 1: "parse_resume one_file ''resume.md'' = parse scenario_a"
    by (rule w1[THEN conjunct2, THEN conjunct2, THEN conjunct2, THEN conjunct1, THEN mp, OF s])
  have 2: "parse_resume one_file ''other.md'' = Inl FileNotFoundError"
    using w2[THEN conjunct1] n by simp
  have 3: "parse ''Jane Doe, engineer'' = Inr (empty_data\<lparr>name := ''Resume''\<rparr>)"
    by (rule w2[THEN conjunct2, THEN conjunct2, THEN conjunct2, THEN conjunct2, THEN conjunct2,
          THEN mp, OF h])
  from s 1 n 2 h 3 show ?thesis by (intro conjI)
qed

lemma fold_err_invariant:
  "fold_err f s xs = Inr s' \<Longrightarrow> P s \<Longrightarrow> (\<And>s x t. P s \<Longrightarrow> f s x = Inr t \<Longrightarrow> P t) \<Longrightarrow> P s'"
proof (induction xs arbitrary: s)
  case Nil
  then show ?case by simp
next
  case (Cons x xs)
  from Cons.prems(1) obtain t where t: "f s x = Inr t" and r: "fold_err f t xs = Inr s'"
    by (auto split: sum.splits)
  from Cons.prems(3)[OF Cons.prems(2) t] have "P t" .
  from Cons.IH[OF r this Cons.prems(3)] show ?case .
qed

section \<open>Properties of the section loop\<close>

lemma parse_section_routes:
  "parse_section data (n, c) = Inr d' \<Longrightarrow>
     (if contains (lower n) ''summary'' then d' = data\<lparr>summary := parse_summary c\<rparr>
      else if contains (lower n) ''skill''
      then parse_skills c = Inr (skills d') \<and> d' = data\<lparr>skills := skills d'\<rparr>
      else if contains (lower n) ''experience''
      then parse_experience c = Inr (experience d') \<and> d' = data\<lparr>experience := experience d'\<rparr>
      else if contains (lower n) ''education''
      then parse_education c = Inr (education d') \<and> d' = data\<lparr>education := education d'\<rparr>
      else if contains (lower n) ''certification''
      then d' = data\<lparr>certifications := parse_certifications c\<rparr>
      else d' = data\<lparr>raw_sections := AList.update n c (raw_sections data)\<rparr>)"
proof -
  assume a: "parse_section data (n, c) = Inr d'"
  obtain sk where sk: "parse_skills c = Inr sk" using parse_skills_total by blast
  obtain ex where ex: "parse_experience c = Inr ex" using parse_experience_total by blast
  obtain ed where ed: "parse_education c = Inr ed" using parse_education_total by blast
  from a show ?thesis
    unfolding parse_section_def Let_def fst_conv snd_conv sk ex ed bind_err_Inr
    by (auto split: if_splits)
qed

lemma parse_section_keeps_unclaimed:
  assumes "\<forall>k \<in> set (map fst (raw_sections data)). unclaimed k"
    and "parse_section data sec = Inr d'"
  shows "\<forall>k \<in> set (map fst (raw_sections d')). unclaimed k"
proof -
  obtain n c where sec: "sec = (n, c)" by (cases sec)
  obtain sk where sk: "parse_skills c = Inr sk" using parse_skills_total by blast
  obtain ex where ex: "parse_experience c = Inr ex" using parse_experience_total by blast
  obtain ed where ed: "parse_education c = Inr ed" using parse_education_total by blast
  from assms(2) have "raw_sections d' = raw_sections data \<or>
        (unclaimed n \<and> raw_sections d' = AList.update n c (raw_sections data))"
    unfolding sec parse_section_def Let_def fst_conv snd_conv sk ex ed bind_err_Inr unclaimed_def
    by (auto split: if_splits)
  then show ?thesis
  proof
    assume "raw_sections d' = raw_sections data"
    with assms(1) show ?thesis by simp
  next
    assume u: "unclaimed n \<and> raw_sections d' = AList.update n c (raw_sections data)"
    have "fst ` set (AList.update n c (raw_sections data)) = {n} \<union> fst ` set (raw_sections data)"
      by (rule dom_update)
    with u assms(1) show ?thesis by auto
  qed
qed

lemma parse_keeps_unclaimed:
  assumes "parse content = Inr d"
  shows "\<forall>k \<in> set (map fst (raw_sections d)). unclaimed k"
proof -
  obtain c where c: "extract_contact (py_split nl content) = Inr c"
    using extract_contact_total by blast
  define d0 where "d0 = empty_data\<lparr>name := extract_name (py_split nl content), contact := c\<rparr>"
  from assms c have f: "fold_err parse_section d0 (split_into_sections (py_split nl content)) = Inr d"
    by (simp add: parse_def Let_def d0_def)
  have i: "\<forall>k \<in> set (map fst (raw_sections d0)). unclaimed k"
    by (simp add: d0_def empty_data_def)
  show ?thesis
    by (rule fold_err_invariant[OF f, of "\<lambda>d. \<forall>k \<in> set (map fst (raw_sections d)). unclaimed k"])
      (use i parse_section_keeps_unclaimed in blast)+
qed

text \<open>
  C2: no key of \<open>raw_sections\<close> in a parsed document contains, in lower case, \<open>summary\<close>,
  \<open>skill\<close>, \<open>experience\<close>, \<open>education\<close> or \<open>certification\<close>; and a section goes to the
  first of these categories, in this order, whose word its lower-case name contains: the
  field of that category is set from the content by its sub-parser and nothing else
  changes; a section that no category claims is stored in \<open>raw_sections\<close> under its name.
\<close>

theorem raw_sections_only_unclaimed:
  "(parse content = Inr d \<longrightarrow>
      (\<forall>k \<in> set (map fst (raw_sections d)).
         \<not> contains (lower k) ''summary'' \<and> \<not> contains (lower k) ''skill'' \<and>
         \<not> contains (lower k) ''experience'' \<and> \<not> contains (lower k) ''education'' \<and>
         \<not> contains (lower k) ''certification'')) \<and>
   (parse_section data (n, c) = Inr d' \<longrightarrow>
     (if contains (lower n) ''summary'' then d' = data\<lparr>summary := parse_summary c\<rparr>
      else if contains (lower n) ''skill''
      then parse_skills c = Inr (skills d') \<and> d' = data\<lparr>skills := skills d'\<rparr>
      else if contains (lower n) ''experience''
      then parse_experience c = Inr (experience d') \<and> d' = data\<lparr>experience := experience d'\<rparr>
      else if contains (lower n) ''education''
      then parse_education c = Inr (education d') \<and> d' = data\<lparr>education := education d'\<rparr>
      else if contains (lower n) ''certification''
      then d' = data\<lparr>certifications := parse_certifications c\<rparr>
      else d' = data\<lparr>raw_sections := AList.update n c (raw_sections data)\<rparr>))"
  using parse_keeps_unclaimed[of content d] parse_section_routes[of data n c d']
  unfolding unclaimed_def by blast

text \<open>
  C2 on the text with two sections: \<open>Projects\<close> is stored as it is, \<open>Summary of Skills\<close> goes
  to the summary.
\<close>

theorem raw_sections_only_unclaimed_witness:
  "parse two_sections =
     Inr (empty_data\<lparr>name := ''A'', summary := ''fast'', raw_sections := [(''Projects'', ''demo'')]\<rparr>) \<and>
   \<not> contains (lower ''Projects'') ''summary'' \<and>
   parse_section empty_data (''Summary of Skills'', ''fast'') = Inr (empty_data\<lparr>summary := ''fast''\<rparr>) \<and>
   contains (lower ''Summary of Skills'') ''summary''"
proof -
  have p: "parse two_sections =
     Inr (empty_data\<lparr>name := ''A'', summary := ''fast'', raw_sections := [(''Projects'', ''demo'')]\<rparr>)"
    by code_simp
  have s: "parse_section empty_data (''Summary of Skills'', ''fast'') = Inr (empty_data\<lparr>summary := ''fast''\<rparr>)"
    by code_simp
  have c: "contains (lower ''Summary of Skills'') ''summary''"
    by code_simp
  from raw_sections_only_unclaimed[of two_sections
      "empty_data\<lparr>name := ''A'', summary := ''fast'', raw_sections := [(''Projects'', ''demo'')]\<rparr>"
      empty_data "''Summary of Skills''" "''fast''" "empty_data\<lparr>summary := ''fast''\<rparr>"] p s
  have "\<not> contains (lower ''Projects'') ''summary''"
    by simp
  with p s c show ?thesis by simp
qed

section \<open>Properties of the skills parser\<close>

text \<open>
  C5 as stated fails: the plain line after the bold label with a colon is stored under
  \<open>General\<close>, the current category, and not under the label \<open>Lang\<close>.
\<close>

theorem bold_label_counterexample:
  "parse_skills label_then_plain =
     Inr [(''Lang'', [''Python'', ''Go'']), (''General'', [''Docker''])] \<and>
   parse_skills label_then_plain \<noteq> Inr [(''Lang'', [''Python'', ''Go'', ''Docker''])]"
  by code_simp

lemma map_of_update_other: "k \<noteq> j \<Longrightarrow> map_of (AList.update j v d) k = map_of d k"
  by (simp add: update_conv')

lemma fold_err_append:
  "fold_err f s xs = Inr t \<Longrightarrow> fold_err f s (xs @ ys) = fold_err f t ys"
proof (induction xs arbitrary: s)
  case Nil
  then show ?case by simp
next
  case (Cons x xs)
  from Cons.prems obtain u where u: "f s x = Inr u" and r: "fold_err f u xs = Inr t"
    by (auto split: sum.splits)
  from Cons.IH[OF r] u show ?case by simp
qed

lemma label_step:
  assumes "bold_label_line raw"
  shows "\<exists>m g1 g2. re_match skills_rx (strip raw) = Some m \<and> match_group m 1 = Some g1 \<and>
     match_group m 2 = Some g2 \<and>
     skills_line (sk, cur) raw =
       Inr (AList.update (strip g1) (map strip (py_split CHR '','' (strip g2))) sk, cur)"
proof -
  define l where "l = strip raw"
  from assms have c: "(l = []) = False" "startswith l ''### '' = False"
    "(startswith l ''**'' \<and> endswith l ''**'') = False"
    "(contains l ''**'' \<and> contains l '':'') = True"
    and ne: "re_match skills_rx l \<noteq> None"
    by (simp_all add: bold_label_line_def Let_def l_def)
  from ne obtain m where m: "re_match skills_rx l = Some m" by blast
  from re_match_group[OF m pattern_groups(3)] obtain g1 where g1: "match_group m 1 = Some g1" by blast
  from re_match_group[OF m pattern_groups(4)] obtain g2 where g2: "match_group m 2 = Some g2" by blast
  have step: "skills_line (sk, cur) raw =
       Inr (AList.update (strip g1) (map strip (py_split CHR '','' (strip g2))) sk, cur)"
    unfolding skills_line_def Let_def fst_conv snd_conv l_def[symmetric] c if_False if_True
      m option.case group_str_total[OF g1] group_str_total[OF g2] bind_err_Inr
    by (rule refl)
  have all: "re_match skills_rx l = Some m \<and> match_group m 1 = Some g1 \<and>
     match_group m 2 = Some g2 \<and>
     skills_line (sk, cur) raw =
       Inr (AList.update (strip g1) (map strip (py_split CHR '','' (strip g2))) sk, cur)"
    using m g1 g2 step by (intro conjI) assumption+
  show ?thesis
    unfolding l_def[symmetric]
    by (rule exI[of _ m], rule exI[of _ g1], rule exI[of _ g2], rule all)
qed

lemma plain_step:
  assumes "plain_skill_line raw"
  shows "\<exists>sk2. skills_line (sk1, cur) raw = Inr (sk2, cur) \<and>
     map_of sk2 cur =
       Some ((case map_of sk1 cur of None \<Rightarrow> [] | Some v \<Rightarrow> v) @ skill_items raw) \<and>
     (\<forall>k. k \<noteq> cur \<longrightarrow> map_of sk2 k = map_of sk1 k)"
proof -
  define l where "l = strip raw"
  define items where "items = (if contains l '','' then map strip (py_split CHR '','' l) else [l])"
  define old where "old = (case map_of sk1 cur of None \<Rightarrow> [] | Some v \<Rightarrow> v)"
  define sk2 where "sk2 = AList.update cur (old @ items)
     (if cur \<notin> set (map fst sk1) then AList.update cur [] sk1 else sk1)"
  from assms have c: "(l = []) = False" "startswith l ''### '' = False"
    "(startswith l ''**'' \<and> endswith l ''**'') = False"
    "(contains l ''**'' \<and> contains l '':'') = False"
    by (simp_all add: plain_skill_line_def Let_def l_def)
  have get: "dict_get (if cur \<notin> set (map fst sk1) then AList.update cur [] sk1 else sk1) cur =
      Inr old"
  proof (cases "cur \<in> set (map fst sk1)")
    case True
    then have "map_of sk1 cur \<noteq> None" by (simp add: map_of_eq_None_iff)
    with True show ?thesis by (auto simp: dict_get_def old_def)
  next
    case False
    then have "map_of sk1 cur = None" by (simp add: map_of_eq_None_iff)
    with False show ?thesis by (simp add: dict_get_update old_def)
  qed
  have step: "skills_line (sk1, cur) raw = Inr (sk2, cur)"
    unfolding skills_line_def Let_def fst_conv snd_conv l_def[symmetric] c if_False
      get bind_err_Inr sk2_def items_def
    by (cases "contains l '',''") simp_all
  have at: "map_of sk2 cur = Some (old @ items)"
    by (simp add: sk2_def update_conv')
  have other: "\<forall>k. k \<noteq> cur \<longrightarrow> map_of sk2 k = map_of sk1 k"
    by (simp add: sk2_def map_of_update_other)
  have items: "skill_items raw = items"
    by (simp add: skill_items_def Let_def l_def items_def)
  have all: "skills_line (sk1, cur) raw = Inr (sk2, cur) \<and>
     map_of sk2 cur =
       Some ((case map_of sk1 cur of None \<Rightarrow> [] | Some v \<Rightarrow> v) @ skill_items raw) \<and>
     (\<forall>k. k \<noteq> cur \<longrightarrow> map_of sk2 k = map_of sk1 k)"
    using step at[unfolded old_def] other unfolding items by (intro conjI) assumption+
  show ?thesis by (rule exI[of _ sk2], rule all)
qed

lemma non_marker_keeps_category:
  assumes "\<not> category_marker raw"
  shows "\<exists>sk'. skills_line (sk, cur) raw = Inr (sk', cur)"
proof -
  define l where "l = strip raw"
  show ?thesis
  proof (cases "l = []")
    case True
    then have "skills_line (sk, cur) raw = Inr (sk, cur)"
      by (simp add: skills_line_def Let_def l_def)
    then show ?thesis by (rule exI)
  next
    case False
    with assms have nm: "\<not> startswith l ''### ''" "\<not> (startswith l ''**'' \<and> endswith l ''**'')"
      by (simp_all add: category_marker_def Let_def l_def)
    show ?thesis
    proof (cases "contains l ''**'' \<and> contains l '':''")
      case True
      show ?thesis
      proof (cases "re_match skills_rx l")
        case None
        from False nm True have c: "(l = []) = False" "startswith l ''### '' = False"
          "(startswith l ''**'' \<and> endswith l ''**'') = False"
          "(contains l ''**'' \<and> contains l '':'') = True"
          by simp_all
        have "skills_line (sk, cur) raw = Inr (sk, cur)"
          unfolding skills_line_def Let_def fst_conv snd_conv l_def[symmetric] c if_False if_True
            None option.case
          by (rule refl)
        then show ?thesis by (rule exI)
      next
        case (Some m)
        with False nm True have "bold_label_line raw"
          by (simp add: bold_label_line_def Let_def l_def[symmetric])
        from label_step[OF this, of sk cur] show ?thesis by blast
      qed
    next
      case no: False
      with False nm have "plain_skill_line raw"
        by (simp add: plain_skill_line_def Let_def l_def[symmetric])
      from plain_step[OF this, of sk cur] show ?thesis by blast
    qed
  qed
qed

lemma non_markers_keep_category:
  "\<forall>raw \<in> set ls. \<not> category_marker raw \<Longrightarrow>
   \<exists>sk'. fold_err skills_line (sk, cur) ls = Inr (sk', cur)"
proof (induction ls arbitrary: sk)
  case Nil
  then show ?case by simp
next
  case (Cons raw ls)
  from Cons.prems have "\<not> category_marker raw" by simp
  from non_marker_keeps_category[OF this, of sk cur]
  obtain sk1 where sk1: "skills_line (sk, cur) raw = Inr (sk1, cur)" by blast
  from Cons.prems have "\<forall>raw \<in> set ls. \<not> category_marker raw" by simp
  from Cons.IH[OF this, of sk1] obtain sk2 where "fold_err skills_line (sk1, cur) ls = Inr (sk2, cur)"
    by blast
  with sk1 have "fold_err skills_line (sk, cur) (raw # ls) = Inr (sk2, cur)" by simp
  then show ?case by (rule exI)
qed

text \<open>
  C5, as the code has it: a bold label with a colon sets the list of the label's category
  to the stripped pieces of the text after the colon, split at the commas, and leaves the
  current category as it was. Through any lines that follow, as long as none of them is a
  category marker, the current category stays the same, and a plain line after them is
  appended (split at the commas when it has one) to the list of that unchanged current
  category: the one of the last category marker before the label, or \<open>General\<close>. The
  list of every other category is not touched by the plain line.
\<close>

theorem bold_label_keeps_category_until_marker:
  assumes "bold_label_line raw1"
    and "\<forall>raw \<in> set between. \<not> category_marker raw"
    and "plain_skill_line raw2"
  shows "\<exists>m g1 g2 sk1 sk_mid sk2.
     re_match skills_rx (strip raw1) = Some m \<and> match_group m 1 = Some g1 \<and>
     match_group m 2 = Some g2 \<and>
     sk1 = AList.update (strip g1) (map strip (py_split CHR '','' (strip g2))) sk \<and>
     skills_line (sk, current_category) raw1 = Inr (sk1, current_category) \<and>
     fold_err skills_line (sk1, current_category) between = Inr (sk_mid, current_category) \<and>
     skills_line (sk_mid, current_category) raw2 = Inr (sk2, current_category) \<and>
     fold_err skills_line (sk, current_category) (raw1 # between @ [raw2]) =
       Inr (sk2, current_category) \<and>
     map_of sk2 current_category =
       Some ((case map_of sk_mid current_category of None \<Rightarrow> [] | Some v \<Rightarrow> v) @
             skill_items raw2) \<and>
     (\<forall>k. k \<noteq> current_category \<longrightarrow> map_of sk2 k = map_of sk_mid k)"
proof -
  from label_step[OF assms(1), of sk current_category]
  obtain m g1 g2 where m: "re_match skills_rx (strip raw1) = Some m"
    and g1: "match_group m 1 = Some g1" and g2: "match_group m 2 = Some g2"
    and s1: "skills_line (sk, current_category) raw1 =
       Inr (AList.update (strip g1) (map strip (py_split CHR '','' (strip g2))) sk,
            current_category)"
    by (elim exE conjE)
  define sk1 where "sk1 = AList.update (strip g1) (map strip (py_split CHR '','' (strip g2))) sk"
  from non_markers_keep_category[OF assms(2), of sk1 current_category]
  obtain sk_mid where mid: "fold_err skills_line (sk1, current_category) between =
      Inr (sk_mid, current_category)"
    by (elim exE)
  from plain_step[OF assms(3), of sk_mid current_category]
  obtain sk2 where s2: "skills_line (sk_mid, current_category) raw2 = Inr (sk2, current_category)"
    and at: "map_of sk2 current_category =
       Some ((case map_of sk_mid current_category of None \<Rightarrow> [] | Some v \<Rightarrow> v) @
             skill_items raw2)"
    and other: "\<forall>k. k \<noteq> current_category \<longrightarrow> map_of sk2 k = map_of sk_mid k"
    by (elim exE conjE)
  have step1: "skills_line (sk, current_category) raw1 = Inr (sk1, current_category)"
    using s1 by (simp only: sk1_def)
  have "fold_err skills_line (sk1, current_category) (between @ [raw2]) =
      fold_err skills_line (sk_mid, current_category) [raw2]"
    using mid by (rule fold_err_append)
  also have "\<dots> = Inr (sk2, current_category)"
    using s2 by simp
  finally have "fold_err skills_line (sk1, current_category) (between @ [raw2]) =
      Inr (sk2, current_category)" .
  with step1 have whole: "fold_err skills_line (sk, current_category) (raw1 # between @ [raw2]) =
       Inr (sk2, current_category)"
    by simp
  have all: "re_match skills_rx (strip raw1) = Some m \<and> match_group m 1 = Some g1 \<and>
     match_group m 2 = Some g2 \<and>
     sk1 = AList.update (strip g1) (map strip (py_split CHR '','' (strip g2))) sk \<and>
     skills_line (sk, current_category) raw1 = Inr (sk1, current_category) \<and>
     fold_err skills_line (sk1, current_category) between = Inr (sk_mid, current_category) \<and>
     skills_line (sk_mid, current_category) raw2 = Inr (sk2, current_category) \<and>
     fold_err skills_line (sk, current_category) (raw1 # between @ [raw2]) =
       Inr (sk2, current_category) \<and>
     map_of sk2 current_category =
       Some ((case map_of sk_mid current_category of None \<Rightarrow> [] | Some v \<Rightarrow> v) @
             skill_items raw2) \<and>
     (\<forall>k. k \<noteq> current_category \<longrightarrow> map_of sk2 k = map_of sk_mid k)"
    using m g1 g2 sk1_def step1 mid s2 whole at other by (intro conjI) assumption+
  show ?thesis
    by (rule exI[of _ m], rule exI[of _ g1], rule exI[of _ g2], rule exI[of _ sk1],
        rule exI[of _ sk_mid], rule exI[of _ sk2], rule all)
qed

text \<open>
  C5 on a bold label, then a blank line, a second bold label and a plain line, then the
  plain line \<open>Docker\<close>, from the empty dict and the category \<open>General\<close>.
\<close>

theorem bold_label_keeps_category_until_marker_witness:
  "bold_label_line ''**Lang**: Python, Go'' \<and>
   \<not> category_marker [] \<and> \<not> category_marker ''**Cloud**: AWS'' \<and> \<not> category_marker ''Rust'' \<and>
   plain_skill_line ''Docker'' \<and>
   (\<exists>m g1 g2 sk1 sk_mid sk2.
     re_match skills_rx (strip ''**Lang**: Python, Go'') = Some m \<and> match_group m 1 = Some g1 \<and>
     match_group m 2 = Some g2 \<and>
     sk1 = AList.update (strip g1) (map strip (py_split CHR '','' (strip g2))) [] \<and>
     skills_line ([], ''General'') ''**Lang**: Python, Go'' = Inr (sk1, ''General'') \<and>
     fold_err skills_line (sk1, ''General'') lines_after_label = Inr (sk_mid, ''General'') \<and>
     skills_line (sk_mid, ''General'') ''Docker'' = Inr (sk2, ''General'') \<and>
     fold_err skills_line ([], ''General'')
       (''**Lang**: Python, Go'' # lines_after_label @ [''Docker'']) = Inr (sk2, ''General'') \<and>
     map_of sk2 ''General'' =
       Some ((case map_of sk_mid ''General'' of None \<Rightarrow> [] | Some v \<Rightarrow> v) @
             skill_items ''Docker'') \<and>
     (\<forall>k. k \<noteq> ''General'' \<longrightarrow> map_of sk2 k = map_of sk_mid k))"
proof -
  have h1: "bold_label_line ''**Lang**: Python, Go''"
    by code_simp
  have n: "\<not> category_marker []" "\<not> category_marker ''**Cloud**: AWS''" "\<not> category_marker ''Rust''"
    by code_simp+
  then have h2: "\<forall>raw \<in> set lines_after_label. \<not> category_marker raw"
    by (simp add: lines_after_label_def)
  have h3: "plain_skill_line ''Docker''"
    by code_simp
  note w = bold_label_keeps_category_until_marker[OF h1 h2 h3, of "[]" "''General''"]
  from h1 n h3 w show ?thesis by (intro conjI)
qed

section \<open>Properties of the renderer\<close>

lemma section_headers_append [simp]:
  "section_headers (a @ b) = section_headers a @ section_headers b"
  by (simp add: section_headers_def)

lemma section_headers_Nil [simp]: "section_headers [] = []"
  by (simp add: section_headers_def)

lemma section_headers_Cons [simp]:
  "section_headers (b # bs) =
     (if bottom_border b then [concat (map run_text (runs b))] else []) @ section_headers bs"
  by (simp add: section_headers_def)

lemma mk_para_plain [simp]: "bottom_border (mk_para rs after) = False"
  by (simp add: mk_para_def)

lemma section_headers_map_plain:
  "(\<And>x. \<not> bottom_border (f x)) \<Longrightarrow> section_headers (map f xs) = []"
  by (induction xs) simp_all

lemma section_headers_concat_plain:
  "(\<And>x. section_headers (f x) = []) \<Longrightarrow> section_headers (concat (map f xs)) = []"
  by (induction xs) simp_all

lemma headers_add_header:
  "section_headers (add_header st nm c doc) = section_headers doc"
  by (simp add: add_header_def Let_def section_headers_map_plain)

lemma headers_add_section_header:
  "section_headers (add_section_header st t doc) = section_headers doc @ [upper t]"
  by (simp add: add_section_header_def section_headers_def mk_para_def mk_run_def)

lemma headers_add_section:
  "section_headers (add_section st t content doc) = section_headers doc @ [upper t]"
  by (simp add: add_section_def Let_def headers_add_section_header)

lemma headers_add_skills_section:
  "section_headers (add_skills_section st sk doc) = section_headers doc @ [upper ''Core Skills'']"
  by (simp add: add_skills_section_def headers_add_section_header section_headers_concat_plain)

lemma headers_job_blocks: "section_headers (job_blocks st job) = []"
  by (simp add: job_blocks_def Let_def section_headers_map_plain)

lemma headers_experience_loop: "section_headers (experience_loop st js) = []"
  by (induction js) (simp_all add: headers_job_blocks)

lemma headers_add_experience_section:
  "section_headers (add_experience_section st js doc) =
     section_headers doc @ [upper ''Professional Experience'']"
  by (simp add: add_experience_section_def headers_add_section_header headers_experience_loop)

lemma headers_edu_blocks: "section_headers (edu_blocks st edu) = []"
  by (simp add: edu_blocks_def Let_def section_headers_map_plain)

lemma headers_add_education_section:
  "section_headers (add_education_section st es doc) = section_headers doc @ [upper ''Education'']"
  by (simp add: add_education_section_def headers_add_section_header headers_edu_blocks
      section_headers_concat_plain)

lemma headers_add_certifications_section:
  "section_headers (add_certifications_section st cs doc) =
     section_headers doc @ [upper ''Certifications'']"
  by (simp add: add_certifications_section_def headers_add_section_header
      section_headers_map_plain)

lemma headers_other_sections:
  "section_headers (fold (\<lambda>sec d. add_section st (fst sec) (snd sec) d) secs doc) =
     section_headers doc @ map (\<lambda>sec. upper (fst sec)) secs"
  by (induction secs arbitrary: doc) (simp_all add: headers_add_section)

lemma upper_titles:
  "upper ''Summary'' = ''SUMMARY''" "upper ''Core Skills'' = ''CORE SKILLS''"
  "upper ''Professional Experience'' = ''PROFESSIONAL EXPERIENCE''"
  "upper ''Education'' = ''EDUCATION''" "upper ''Certifications'' = ''CERTIFICATIONS''"
  by code_simp+

lemma headers_build:
  "section_headers (build st resume doc) =
     section_headers doc @
     (if summary resume \<noteq> [] then [''SUMMARY''] else []) @
     (if skills resume \<noteq> [] then [''CORE SKILLS''] else []) @
     (if experience resume \<noteq> [] then [''PROFESSIONAL EXPERIENCE''] else []) @
     (if education resume \<noteq> [] then [''EDUCATION''] else []) @
     (if certifications resume \<noteq> [] then [''CERTIFICATIONS''] else []) @
     map (\<lambda>sec. upper (fst sec)) (raw_sections resume)"
  unfolding build_def Let_def headers_other_sections
  by (simp add: headers_add_header headers_add_section headers_add_skills_section
      headers_add_experience_section headers_add_education_section
      headers_add_certifications_section upper_titles)

text \<open>
  C8: \<open>build\<close> appends one section header for the summary, the skills, the experience,
  the education and the certifications, each only when that field is not empty, and one
  for every entry of \<open>raw_sections\<close>, in this order. When the experience, the education,
  the certifications and \<open>raw_sections\<close> are all empty, the output is the header block
  followed by the summary section and the skills section, each when not empty, and the
  only section headers added are theirs.
\<close>

theorem empty_collections_emit_no_header:
  "section_headers (build st resume doc) =
     section_headers doc @
     (if summary resume \<noteq> [] then [''SUMMARY''] else []) @
     (if skills resume \<noteq> [] then [''CORE SKILLS''] else []) @
     (if experience resume \<noteq> [] then [''PROFESSIONAL EXPERIENCE''] else []) @
     (if education resume \<noteq> [] then [''EDUCATION''] else []) @
     (if certifications resume \<noteq> [] then [''CERTIFICATIONS''] else []) @
     map (\<lambda>sec. upper (fst sec)) (raw_sections resume) \<and>
   (experience resume = [] \<and> education resume = [] \<and> certifications resume = [] \<and>
    raw_sections resume = [] \<longrightarrow>
      build st resume doc =
        (let d1 = add_header st (name resume) (contact resume) doc;
             d2 = (if summary resume \<noteq> [] then add_section st ''Summary'' (summary resume) d1
                   else d1)
         in if skills resume \<noteq> [] then add_skills_section st (skills resume) d2 else d2) \<and>
      section_headers (build st resume doc) =
        section_headers doc @
        (if summary resume \<noteq> [] then [''SUMMARY''] else []) @
        (if skills resume \<noteq> [] then [''CORE SKILLS''] else []))"
proof -
  have general: "section_headers (build st resume doc) =
     section_headers doc @
     (if summary resume \<noteq> [] then [''SUMMARY''] else []) @
     (if skills resume \<noteq> [] then [''CORE SKILLS''] else []) @
     (if experience resume \<noteq> [] then [''PROFESSIONAL EXPERIENCE''] else []) @
     (if education resume \<noteq> [] then [''EDUCATION''] else []) @
     (if certifications resume \<noteq> [] then [''CERTIFICATIONS''] else []) @
     map (\<lambda>sec. upper (fst sec)) (raw_sections resume)"
    by (rule headers_build)
  have special: "build st resume doc =
        (let d1 = add_header st (name resume) (contact resume) doc;
             d2 = (if summary resume \<noteq> [] then add_section st ''Summary'' (summary resume) d1
                   else d1)
         in if skills resume \<noteq> [] then add_skills_section st (skills resume) d2 else d2) \<and>
      section_headers (build st resume doc) =
        section_headers doc @
        (if summary resume \<noteq> [] then [''SUMMARY''] else []) @
        (if skills resume \<noteq> [] then [''CORE SKILLS''] else [])"
    if e: "experience resume = [] \<and> education resume = [] \<and> certifications resume = [] \<and>
           raw_sections resume = []"
  proof
    from e show "build st resume doc =
        (let d1 = add_header st (name resume) (contact resume) doc;
             d2 = (if summary resume \<noteq> [] then add_section st ''Summary'' (summary resume) d1
                   else d1)
         in if skills resume \<noteq> [] then add_skills_section st (skills resume) d2 else d2)"
      by (simp add: build_def Let_def)
    from e general show "section_headers (build st resume doc) =
        section_headers doc @
        (if summary resume \<noteq> [] then [''SUMMARY''] else []) @
        (if skills resume \<noteq> [] then [''CORE SKILLS''] else [])"
      by simp
  qed
  show ?thesis
  proof (intro conjI impI)
    show "section_headers (build st resume doc) =
     section_headers doc @
     (if summary resume \<noteq> [] then [''SUMMARY''] else []) @
     (if skills resume \<noteq> [] then [''CORE SKILLS''] else []) @
     (if experience resume \<noteq> [] then [''PROFESSIONAL EXPERIENCE''] else []) @
     (if education resume \<noteq> [] then [''EDUCATION''] else []) @
     (if certifications resume \<noteq> [] then [''CERTIFICATIONS''] else []) @
     map (\<lambda>sec. upper (fst sec)) (raw_sections resume)"
      by (rule general)
  next
    assume "experience resume = [] \<and> education resume = [] \<and> certifications resume = [] \<and>
           raw_sections resume = []"
    then show "build st resume doc =
        (let d1 = add_header st (name resume) (contact resume) doc;
             d2 = (if summary resume \<noteq> [] then add_section st ''Summary'' (summary resume) d1
                   else d1)
         in if skills resume \<noteq> [] then add_skills_section st (skills resume) d2 else d2)"
      by (rule special[THEN conjunct1])
  next
    assume "experience resume = [] \<and> education resume = [] \<and> certifications resume = [] \<and>
           raw_sections resume = []"
    then show "section_headers (build st resume doc) =
        section_headers doc @
        (if summary resume \<noteq> [] then [''SUMMARY''] else []) @
        (if skills resume \<noteq> [] then [''CORE SKILLS''] else [])"
      by (rule special[THEN conjunct2])
  qed
qed

text \<open>
  C8 on the document with a name and a summary only, with the default styles: the one
  section header is \<open>SUMMARY\<close>.
\<close>

theorem empty_collections_emit_no_header_witness:
  "experience summary_only = [] \<and> education summary_only = [] \<and>
   certifications summary_only = [] \<and> raw_sections summary_only = [] \<and>
   section_headers (build default_styles summary_only []) = [''SUMMARY'']"
proof -
  have e: "experience summary_only = [] \<and> education summary_only = [] \<and>
      certifications summary_only = [] \<and> raw_sections summary_only = []"
    by (simp add: summary_only_def empty_data_def)
  have s: "summary summary_only \<noteq> []" "skills summary_only = []"
    by (simp_all add: summary_only_def empty_data_def)
  have "section_headers (build default_styles summary_only []) =
        section_headers [] @
        (if summary summary_only \<noteq> [] then [''SUMMARY''] else []) @
        (if skills summary_only \<noteq> [] then [''CORE SKILLS''] else [])"
    by (rule empty_collections_emit_no_header[of default_styles summary_only "[]",
          THEN conjunct2, THEN mp, OF e, THEN conjunct2])
  with s e show ?thesis by simp
qed

end
